theory Spec2Isabelle
  imports Main "HOL-Library.Word"
begin

text \<open>
  The chat client of the Mindual assistant, \<open>web/src/App.jsx\<close>: the values the
  handlers work on, the handlers \<open>fetchEvents\<close> and \<open>handleSubmit\<close> as traces
  of effects on the state of the component, the rendering of the chat window, and
  the calendar grid; then the properties of the specification.
\<close>

section \<open>Values of the language\<close>

subsection \<open>Strings\<close>

text \<open>
  A JavaScript string is a sequence of UTF-16 code units; \<open>includes\<close>,
  \<open>startsWith\<close> and \<open>trim\<close> work on code units. ASCII literals of the source are
  written \<open>str ''...''\<close>, the Korean literals as their code units.
\<close>

type_synonym jsstring = "16 word list"

definition str :: "string \<Rightarrow> jsstring" where
  "str s = map (\<lambda>c. of_nat (of_char c)) s"

text \<open>\<open>s.startsWith(p)\<close>\<close>

fun startsWith :: "'a list \<Rightarrow> 'a list \<Rightarrow> bool" where
  "startsWith s [] = True"
| "startsWith [] (p # ps) = False"
| "startsWith (c # cs) (p # ps) = (c = p \<and> startsWith cs ps)"

text \<open>\<open>s.includes(p)\<close> on strings: \<open>p\<close> occurs in \<open>s\<close> at some position.\<close>

fun includesStr :: "'a list \<Rightarrow> 'a list \<Rightarrow> bool" where
  "includesStr [] p = (p = [])"
| "includesStr (c # cs) p = (startsWith (c # cs) p \<or> includesStr cs p)"

text \<open>
  \<open>s.trim()\<close> removes the white space and line terminators of ECMAScript from both
  ends: TAB, LF, VT, FF, CR, SP, NBSP, U+1680, U+2000..U+200A, U+2028, U+2029,
  U+202F, U+205F, U+3000 and U+FEFF.
\<close>

definition isWhiteSpace :: "16 word \<Rightarrow> bool" where
  "isWhiteSpace c \<longleftrightarrow>
     c \<in> {0x9, 0xA, 0xB, 0xC, 0xD, 0x20, 0xA0, 0x1680,
          0x2000, 0x2001, 0x2002, 0x2003, 0x2004, 0x2005, 0x2006, 0x2007, 0x2008,
          0x2009, 0x200A, 0x2028, 0x2029, 0x202F, 0x205F, 0x3000, 0xFEFF}"

definition trim :: "jsstring \<Rightarrow> jsstring" where
  "trim s = rev (dropWhile isWhiteSpace (rev (dropWhile isWhiteSpace s)))"

text \<open>
  Decimal rendering of an integer, as \<open>String(n)\<close> and a template literal render an
  integral number (below the magnitude where the language switches to exponents).
\<close>

definition digit :: "nat \<Rightarrow> 16 word" where
  "digit d = of_nat (48 + d)"

fun digits :: "nat \<Rightarrow> jsstring" where
  "digits n = (if n < 10 then [digit n] else digits (n div 10) @ [digit (n mod 10)])"

declare digits.simps [simp del]

definition numToString :: "int \<Rightarrow> jsstring" where
  "numToString n = (if n < 0 then 0x2D # digits (nat (- n)) else digits (nat n))"

text \<open>\<open>s.padStart(2, '0')\<close>\<close>

definition padStart2 :: "jsstring \<Rightarrow> jsstring" where
  "padStart2 s = replicate (2 - length s) 0x30 @ s"

subsection \<open>JSON values\<close>

text \<open>
  What \<open>resp.json()\<close> yields. A number is one of two kinds. \<open>JInt w\<close> is the
  integer \<open>sint w\<close>, from \<open>-2 ^ 53\<close> to \<open>2 ^ 53 - 1\<close>: these are numbers of the
  language exactly, and it converts them to their decimal digits. \<open>JNumber s\<close>
  is any other number (7.5, or 1e21), carried as the string \<open>s\<close> that the
  language converts it to (\<open>7.5\<close>, \<open>1e+21\<close>); such a number is not zero. An
  object is the list of its own properties, read with \<open>map_of\<close>: the first
  entry of a name is the property. A JavaScript value that may be \<open>undefined\<close>
  is a \<open>json option\<close>, \<open>None\<close> being \<open>undefined\<close>.
\<close>

datatype json =
    JNull
  | JBool bool
  | JInt "54 word"
  | JNumber jsstring
  | JStr jsstring
  | JArr "json list"
  | JObj "(string \<times> json) list"

datatype exn = NetworkFailure | HttpError int | ParseError | TypeError | RenderError

text \<open>
  Property read \<open>v.k\<close> for the property names the program uses (none of them is a
  built-in property of strings, arrays, numbers or booleans): the property of an
  object, \<open>undefined\<close> on any other value, and a TypeError on \<open>null\<close>.
  \<open>field\<close> is the read of a value already known not to be \<open>null\<close>.
\<close>

fun field :: "json \<Rightarrow> string \<Rightarrow> json option" where
  "field (JObj kvs) k = map_of kvs k"
| "field _ k = None"

definition getProp :: "json \<Rightarrow> string \<Rightarrow> exn + json option" where
  "getProp v k = (if v = JNull then Inl TypeError else Inr (field v k))"

text \<open>\<open>a ?? b\<close>: \<open>b\<close> when \<open>a\<close> is \<open>null\<close> or \<open>undefined\<close>.\<close>

fun nullish :: "json option \<Rightarrow> bool" where
  "nullish None = True"
| "nullish (Some JNull) = True"
| "nullish (Some _) = False"

definition coalesce :: "json option \<Rightarrow> json option \<Rightarrow> json option" where
  "coalesce a b = (if nullish a then b else a)"

text \<open>Truthiness, as \<open>if (v)\<close>, \<open>v && ...\<close> and \<open>v || ...\<close> test it.\<close>

fun truthy :: "json option \<Rightarrow> bool" where
  "truthy None = False"
| "truthy (Some JNull) = False"
| "truthy (Some (JBool b)) = b"
| "truthy (Some (JInt n)) = (n \<noteq> 0)"
| "truthy (Some (JNumber s)) = True"
| "truthy (Some (JStr s)) = (s \<noteq> [])"
| "truthy (Some (JArr xs)) = True"
| "truthy (Some (JObj kvs)) = True"

text \<open>The results of a list of evaluations, or the first exception thrown.\<close>

fun collect :: "(exn + 'a) list \<Rightarrow> exn + 'a list" where
  "collect [] = Inr []"
| "collect (Inl e # rs) = Inl e"
| "collect (Inr x # rs) = (case collect rs of Inl e \<Rightarrow> Inl e | Inr xs \<Rightarrow> Inr (x # xs))"

text \<open>
  String conversion of a value, as a template literal and \<open>+=\<close> with a string
  perform it. An array is its elements joined by commas, each converted in turn,
  \<open>null\<close> elements being empty. An object is \<open>[object Object]\<close>, the result of
  the inherited \<open>toString\<close> method; an own property \<open>toString\<close> hides that method
  and, being a JSON value, cannot be called, and \<open>valueOf\<close> (inherited, or hidden
  likewise) gives no primitive value, so the conversion throws a TypeError.
\<close>

fun joinComma :: "jsstring list \<Rightarrow> jsstring" where
  "joinComma [] = []"
| "joinComma [s] = s"
| "joinComma (s # t # ss) = s @ 0x2C # joinComma (t # ss)"

fun toString :: "json \<Rightarrow> exn + jsstring" where
  "toString JNull = Inr (str ''null'')"
| "toString (JBool b) = Inr (if b then str ''true'' else str ''false'')"
| "toString (JInt n) = Inr (numToString (sint n))"
| "toString (JNumber s) = Inr s"
| "toString (JStr s) = Inr s"
| "toString (JArr xs) =
     (case collect (map (\<lambda>x. if x = JNull then Inr [] else toString x) xs) of
        Inl e \<Rightarrow> Inl e
      | Inr ss \<Rightarrow> Inr (joinComma ss))"
| "toString (JObj kvs) =
     (if map_of kvs ''toString'' \<noteq> None then Inl TypeError
      else Inr (str ''[object Object]''))"

text \<open>
  \<open>v.includes(p)\<close> with a string \<open>p\<close>: substring search on a string, membership
  on an array, a TypeError on every other value (which has no such method).
\<close>

fun jsIncludes :: "json \<Rightarrow> jsstring \<Rightarrow> exn + bool" where
  "jsIncludes (JStr s) p = Inr (includesStr s p)"
| "jsIncludes (JArr xs) p = Inr (JStr p \<in> set xs)"
| "jsIncludes _ p = Inl TypeError"


section \<open>The chat client\<close>

subsection \<open>Constants of the source\<close>

text \<open>
  \<open>BACKEND_BASE_URL\<close> is \<open>new URL(RAG_API_URL).origin\<close>, the origin of
  \<open>http://127.0.0.1:8000/ask\<close>.
\<close>

definition BACKEND_BASE_URL :: jsstring where
  "BACKEND_BASE_URL = str ''http://127.0.0.1:8000''"

text \<open>The marker searched in an answer; it reads "reference:".\<close>

definition refMarker :: jsstring where
  "refMarker = [0xCC38, 0xACE0, 0x3A]"

text \<open>
  The citation line: two line feeds, then "(reference: manual p.N based answer)"
  in Korean, \<open>N\<close> being the string the page number converts to.
\<close>

definition citationLine :: "jsstring \<Rightarrow> jsstring" where
  "citationLine pageText =
     [0xA, 0xA, 0x28, 0xCC38, 0xACE0, 0x3A, 0x20, 0xB9E4, 0xB274, 0xC5BC, 0x20, 0x70, 0x2E]
     @ pageText
     @ [0x20, 0xAE30, 0xBC18, 0x20, 0xB2F5, 0xBCC0, 0x29]"

text \<open>The answer used when the payload has none ("could not fetch a response").\<close>

definition noAnswerText :: jsstring where
  "noAnswerText =
     [0xC751, 0xB2F5, 0xC744, 0x20, 0xAC00, 0xC838, 0xC624, 0xC9C0, 0x20, 0xBABB, 0xD588,
      0xC5B4, 0xC694, 0x2E]"

text \<open>The apology of the failure path (two lines, Korean).\<close>

definition apologyText :: jsstring where
  "apologyText =
     [0xC8C4, 0xC1A1, 0xD574, 0xC694, 0x2C, 0x20, 0x52, 0x41, 0x47, 0x20, 0xC11C, 0xBC84,
      0xC5D0, 0x20, 0xC5F0, 0xACB0, 0xD558, 0xB294, 0x20, 0xB370, 0x20, 0xBB38, 0xC81C,
      0xAC00, 0x20, 0xBC1C, 0xC0DD, 0xD588, 0xC2B5, 0xB2C8, 0xB2E4, 0x2E, 0xA, 0xC11C,
      0xBC84, 0x20, 0xC0C1, 0xD0DC, 0xB97C, 0x20, 0xD655, 0xC778, 0xD55C, 0x20, 0xD6C4,
      0x20, 0xB2E4, 0xC2DC, 0x20, 0xC2DC, 0xB3C4, 0xD574, 0x20, 0xC8FC, 0xC138, 0xC694,
      0x2E]"

subsection \<open>Messages and the state of the component\<close>

datatype role = User | Agent

text \<open>An attached \<open>File\<close>; the program reads its name only.\<close>

record jsfile =
  fileName :: jsstring

text \<open>
  A message object. A property the object literal does not have is \<open>None\<close>
  (\<open>undefined\<close> when read); \<open>content\<close> is whatever the payload gave as answer,
  a string for every other message.
\<close>

record message =
  msg_id :: jsstring
  role :: role
  name :: jsstring
  content :: json
  imageUrl :: "json option"
  variant :: "jsstring option"
  sourceImage :: "json option"

text \<open>
  The state hooks of \<open>App\<close> that the handlers read and write, and the value of the
  hidden file input (\<open>None\<close> when \<open>fileInputRef.current\<close> is null).
\<close>

record app =
  messages :: "message list"
  question :: jsstring
  loading :: bool
  imageFile :: "jsfile option"
  imagePreviewUrl :: "jsstring option"
  calendarEvents :: json
  fileInputValue :: "jsstring option"

text \<open>
  What the outside world gives to one run of a handler: the readings of
  \<open>Date.now()\<close> and the outcome of each \<open>fetch\<close>: rejected (network failure), or
  resolved with a status and a body, \<open>None\<close> when the body is not JSON.
\<close>

datatype fetched = Rejected | Resolved int "json option"

record env =
  nowSubmit :: int
  nowReply :: int
  ragFetch :: fetched
  calFetch :: fetched

text \<open>\<open>resp.ok\<close>\<close>

definition ok :: "int \<Rightarrow> bool" where
  "ok status \<longleftrightarrow> 200 \<le> status \<and> status \<le> 299"

text \<open>
  The effects of a handler, in program order: state setters, requests, and what
  is logged. \<open>AppendMessage m\<close> is \<open>setMessages((prev) => [...prev, m])\<close>.
\<close>

datatype formValue = FText jsstring | FFile jsfile

datatype effect =
    PreventDefault
  | AppendMessage message
  | SetQuestion jsstring
  | SetLoading bool
  | SetImagePreviewUrl "jsstring option"
  | SetImageFile "jsfile option"
  | SetCalendarEvents json
  | ResetFileInput
  | PostAsk "(string \<times> formValue) list"
  | GetCalendarEvents
  | ConsoleError exn

fun applyEffect :: "app \<Rightarrow> effect \<Rightarrow> app" where
  "applyEffect st PreventDefault = st"
| "applyEffect st (AppendMessage m) = st\<lparr>messages := messages st @ [m]\<rparr>"
| "applyEffect st (SetQuestion q) = st\<lparr>question := q\<rparr>"
| "applyEffect st (SetLoading b) = st\<lparr>loading := b\<rparr>"
| "applyEffect st (SetImagePreviewUrl u) = st\<lparr>imagePreviewUrl := u\<rparr>"
| "applyEffect st (SetImageFile f) = st\<lparr>imageFile := f\<rparr>"
| "applyEffect st (SetCalendarEvents evs) = st\<lparr>calendarEvents := evs\<rparr>"
| "applyEffect st ResetFileInput = st\<lparr>fileInputValue := map_option (\<lambda>_. []) (fileInputValue st)\<rparr>"
| "applyEffect st (PostAsk form) = st"
| "applyEffect st GetCalendarEvents = st"
| "applyEffect st (ConsoleError e) = st"

definition run :: "app \<Rightarrow> effect list \<Rightarrow> app" where
  "run st effs = foldl applyEffect st effs"

subsection \<open>fetchEvents\<close>

text \<open>\<open>a || d\<close> with a defined \<open>d\<close>.\<close>

fun orElse :: "json option \<Rightarrow> json \<Rightarrow> json" where
  "orElse None d = d"
| "orElse (Some v) d = (if truthy (Some v) then v else d)"

text \<open>The \<open>try\<close> block of \<open>fetchEvents\<close>: the new event list, or what was thrown.\<close>

definition fetchEventsTry :: "fetched \<Rightarrow> exn + json" where
  "fetchEventsTry r =
     (case r of
        Rejected \<Rightarrow> Inl NetworkFailure
      | Resolved status body \<Rightarrow>
          if \<not> ok status then Inl (HttpError status)
          else (case body of
                  None \<Rightarrow> Inl ParseError
                | Some data \<Rightarrow>
                    (case getProp data ''events'' of
                       Inl e \<Rightarrow> Inl e
                     | Inr events \<Rightarrow> Inr (orElse events (JArr [])))))"

definition fetchEventsTrace :: "fetched \<Rightarrow> effect list" where
  "fetchEventsTrace r =
     GetCalendarEvents #
     (case fetchEventsTry r of
        Inr events \<Rightarrow> [SetCalendarEvents events]
      | Inl err \<Rightarrow> [ConsoleError err, SetCalendarEvents (JArr [])])"

definition fetchEvents :: "app \<Rightarrow> fetched \<Rightarrow> app" where
  "fetchEvents st r = run st (fetchEventsTrace r)"


subsection \<open>handleSubmit\<close>

text \<open>\<open>a ?? d\<close> with a defined \<open>d\<close>.\<close>

fun orDefault :: "json option \<Rightarrow> json \<Rightarrow> json" where
  "orDefault None d = d"
| "orDefault (Some JNull) d = d"
| "orDefault (Some v) d = v"

text \<open>
  The body of \<open>if (!isReminder && pages.length > 0)\<close> and what precedes it:
  the decorated answer and the source image, from the first cited page. Reading
  a property of a \<open>null\<close> page, calling \<open>includes\<close> on an answer that has no such
  method, and converting the page number or the answer to a string can throw.
\<close>

definition citeFirstPage :: "bool \<Rightarrow> json list \<Rightarrow> json \<Rightarrow> exn + json \<times> json" where
  "citeFirstPage isReminder pages answerText =
     (case pages of
        [] \<Rightarrow> Inr (answerText, JNull)
      | firstPage # _ \<Rightarrow>
          if isReminder then Inr (answerText, JNull)
          else
            (case getProp firstPage ''page'' of
               Inl e \<Rightarrow> Inl e
             | Inr page \<Rightarrow>
                 let pageNum = coalesce page (field firstPage ''page_number'');
                     pageImageBase64 = orDefault (field firstPage ''image_base64'') JNull;
                     pageImageUrl =
                       orDefault
                         (coalesce
                            (coalesce (field firstPage ''image_url'') (field firstPage ''page_image''))
                            (field firstPage ''pageImage''))
                         JNull;
                     pageImagePath = orDefault (field firstPage ''image_path'') JNull;
                     srcImage =
                       (if truthy (Some pageImageBase64) then pageImageBase64
                        else if truthy (Some pageImageUrl) then pageImageUrl
                        else if truthy (Some pageImagePath) then pageImagePath
                        else JNull)
                 in (case pageNum of
                       None \<Rightarrow> Inr (answerText, srcImage)
                     | Some n \<Rightarrow>
                         if \<not> truthy (Some n) then Inr (answerText, srcImage)
                         else
                           (case jsIncludes answerText refMarker of
                              Inl e \<Rightarrow> Inl e
                            | Inr found \<Rightarrow>
                                if found then Inr (answerText, srcImage)
                                else
                                  (case toString n of
                                     Inl e \<Rightarrow> Inl e
                                   | Inr pageText \<Rightarrow>
                                       (case toString answerText of
                                          Inl e \<Rightarrow> Inl e
                                        | Inr text \<Rightarrow>
                                            Inr (JStr (text @ citationLine pageText),
                                                 srcImage)))))))"

text \<open>
  From \<open>const data = await resp.json()\<close> to the agent message: the message and
  \<open>isReminder\<close>, or what was thrown (\<open>data\<close> may be \<open>null\<close>).
\<close>

definition answerTextOf :: "json \<Rightarrow> json" where
  "answerTextOf data =
     orDefault (coalesce (field data ''answer'') (field data ''result'')) (JStr noAnswerText)"

definition intentOf :: "json \<Rightarrow> json" where
  "intentOf data = orDefault (field data ''intent'') (JStr (str ''rag''))"

definition pagesOf :: "json \<Rightarrow> json list" where
  "pagesOf data = (case field data ''pages'' of Some (JArr ps) \<Rightarrow> ps | _ \<Rightarrow> [])"

text \<open>The object literal \<open>agentMessage\<close> of the \<open>try\<close> block.\<close>

definition agentMessage :: "int \<Rightarrow> json \<Rightarrow> bool \<Rightarrow> json \<Rightarrow> message" where
  "agentMessage now decoratedAnswer isReminder srcImage =
     \<lparr>msg_id = str ''agent-'' @ numToString now,
      role = Agent,
      name = str ''Mindual'',
      content = decoratedAnswer,
      imageUrl = None,
      variant = (if isReminder then Some (str ''reminder'') else None),
      sourceImage = Some srcImage\<rparr>"

definition agentReply :: "int \<Rightarrow> json \<Rightarrow> exn + message \<times> bool" where
  "agentReply now data =
     (case getProp data ''answer'' of
        Inl e \<Rightarrow> Inl e
      | Inr _ \<Rightarrow>
          let answerText = answerTextOf data;
              intent = intentOf data;
              isReminder = (intent = JStr (str ''reminder''));
              pages = pagesOf data
          in (case citeFirstPage isReminder pages answerText of
                Inl e \<Rightarrow> Inl e
              | Inr (decoratedAnswer, srcImage) \<Rightarrow>
                  Inr (agentMessage now decoratedAnswer isReminder srcImage, isReminder)))"

text \<open>
  The \<open>try\<close> block: the request, then either the agent message (and the event
  refresh of a reminder), or what was thrown. The effects before a throw are
  kept: only the request precedes one.
\<close>

definition askResult :: "env \<Rightarrow> exn + message \<times> bool" where
  "askResult e =
     (case ragFetch e of
        Rejected \<Rightarrow> Inl NetworkFailure
      | Resolved status body \<Rightarrow>
          if \<not> ok status then Inl (HttpError status)
          else (case body of
                  None \<Rightarrow> Inl ParseError
                | Some data \<Rightarrow> agentReply (nowReply e) data))"

definition submitTry :: "app \<Rightarrow> env \<Rightarrow> jsstring \<Rightarrow> effect list \<times> exn option" where
  "submitTry st e trimmed =
     (let formData =
            [(''query'', FText trimmed), (''k'', FText (str ''5''))]
            @ (case imageFile st of Some f \<Rightarrow> [(''file'', FFile f)] | None \<Rightarrow> [])
      in (case askResult e of
            Inl err \<Rightarrow> ([PostAsk formData], Some err)
          | Inr (reply, isReminder) \<Rightarrow>
              ([PostAsk formData, AppendMessage reply]
               @ (if isReminder then fetchEventsTrace (calFetch e) else []),
               None)))"

definition apologyMessage :: "int \<Rightarrow> message" where
  "apologyMessage now =
     \<lparr>msg_id = str ''agent-'' @ numToString now,
      role = Agent,
      name = str ''Mindual'',
      content = JStr apologyText,
      imageUrl = None,
      variant = None,
      sourceImage = None\<rparr>"

definition submitCatch :: "env \<Rightarrow> exn \<Rightarrow> effect list" where
  "submitCatch e err = [ConsoleError err, AppendMessage (apologyMessage (nowReply e))]"

definition submitFinally :: "app \<Rightarrow> effect list" where
  "submitFinally st =
     [SetLoading False, SetImageFile None]
     @ (if fileInputValue st \<noteq> None then [ResetFileInput] else [])"

definition userMessage :: "app \<Rightarrow> env \<Rightarrow> jsstring \<Rightarrow> message" where
  "userMessage st e trimmed =
     \<lparr>msg_id = str ''user-'' @ numToString (nowSubmit e),
      role = User,
      name = [0xB098],
      content =
        JStr (if trimmed \<noteq> [] then trimmed
              else (case imageFile st of
                      Some f \<Rightarrow>
                        [0x28, 0xC774, 0xBBF8, 0xC9C0, 0x20, 0xC804, 0xC1A1, 0x3A, 0x20]
                        @ fileName f @ [0x29]
                    | None \<Rightarrow> [0x28, 0xC774, 0xBBF8, 0xC9C0, 0x20, 0xC804, 0xC1A1, 0x29])),
      imageUrl =
        Some (case imageFile st of
                Some f \<Rightarrow> (case imagePreviewUrl st of Some u \<Rightarrow> JStr u | None \<Rightarrow> JNull)
              | None \<Rightarrow> JNull),
      variant = None,
      sourceImage = None\<rparr>"

text \<open>
  The whole handler, as the list of its effects: the values it reads
  (\<open>question\<close>, \<open>imageFile\<close>, \<open>loading\<close>, \<open>imagePreviewUrl\<close>) are those of the
  render it was created in, the state \<open>st\<close>.
\<close>

definition handleSubmitTrace :: "app \<Rightarrow> env \<Rightarrow> effect list" where
  "handleSubmitTrace st e =
     PreventDefault #
     (let trimmed = trim (question st)
      in if (trimmed = [] \<and> imageFile st = None) \<or> loading st then []
         else
           [AppendMessage (userMessage st e trimmed),
            SetQuestion [],
            SetLoading True,
            SetImagePreviewUrl None]
           @ (case submitTry st e trimmed of
                (effs, None) \<Rightarrow> effs
              | (effs, Some err) \<Rightarrow> effs @ submitCatch e err)
           @ submitFinally st)"

definition handleSubmit :: "app \<Rightarrow> env \<Rightarrow> app" where
  "handleSubmit st e = run st (handleSubmitTrace st e)"

subsection \<open>Rendering the chat window\<close>

text \<open>The \<open>src\<close> of the page image, for a source image that is a string.\<close>

definition imgSrc :: "jsstring \<Rightarrow> jsstring" where
  "imgSrc s =
     (if startsWith s (str ''data:'') \<or> startsWith s (str ''http'') then s
      else BACKEND_BASE_URL @ (if startsWith s (str ''/'') then [] else str ''/'') @ s)"

text \<open>
  The page image of a message row: none unless the message is an agent's and its
  source image is truthy; a truthy source image that is not a string has no
  \<open>startsWith\<close>, and the render throws.
\<close>

definition renderSourceImage :: "message \<Rightarrow> exn + jsstring option" where
  "renderSourceImage m =
     (if role m = Agent \<and> truthy (sourceImage m)
      then (case sourceImage m of
              Some (JStr s) \<Rightarrow> Inr (Some (imgSrc s))
            | _ \<Rightarrow> Inl TypeError)
      else Inr None)"

text \<open>\<open>s.split(sep)\<close> with a separator of one code unit.\<close>

fun splitOn :: "'a \<Rightarrow> 'a list \<Rightarrow> 'a list list" where
  "splitOn sep [] = [[]]"
| "splitOn sep (c # cs) =
     (if c = sep then [] # splitOn sep cs
      else (case splitOn sep cs of
              line # lines \<Rightarrow> (c # line) # lines
            | [] \<Rightarrow> [[c]]))"

text \<open>
  What React accepts from a JSX expression. A child \<open>{v}\<close> may be a string, a
  number, a boolean, \<open>null\<close> or an array of such children; an object is not a
  valid child, and the render throws (\<open>RenderError\<close>). An attribute value is
  converted to a string when it is set, and the render throws when it cannot be.
\<close>

fun validChild :: "json \<Rightarrow> bool" where
  "validChild (JObj kvs) = False"
| "validChild (JArr xs) = list_all validChild xs"
| "validChild _ = True"

definition attribute :: "json option \<Rightarrow> exn + json option" where
  "attribute v =
     (case v of
        None \<Rightarrow> Inr None
      | Some u \<Rightarrow> (case toString u of Inl e \<Rightarrow> Inl e | Inr _ \<Rightarrow> Inr (Some u)))"

text \<open>
  The bubble of a message: the content, as a child, and the attached image of a
  user message that has one; otherwise the lines of the content, which must be a
  string to have a \<open>split\<close> method. A row is the message, its bubble, and the
  \<open>src\<close> of the page image if one is shown.
\<close>

datatype bubble = Attached json "json option" | Lines "jsstring list"

datatype chatRow = MessageRow message bubble "jsstring option" | ThinkingRow | EmptyHint

definition renderBubble :: "message \<Rightarrow> exn + bubble" where
  "renderBubble m =
     (if role m = User \<and> truthy (imageUrl m) then
        (if \<not> validChild (content m) then Inl RenderError
         else (case attribute (imageUrl m) of
                 Inl e \<Rightarrow> Inl e
               | Inr src \<Rightarrow> Inr (Attached (content m) src)))
      else (case content m of
              JStr s \<Rightarrow> Inr (Lines (splitOn 0xA s))
            | _ \<Rightarrow> Inl TypeError))"

definition renderMessage :: "message \<Rightarrow> exn + chatRow" where
  "renderMessage m =
     (case renderBubble m of
        Inl e \<Rightarrow> Inl e
      | Inr b \<Rightarrow>
          (case renderSourceImage m of
             Inl e \<Rightarrow> Inl e
           | Inr img \<Rightarrow> Inr (MessageRow m b img)))"

text \<open>
  The children of the chat window: one row for each stored message, the
  "thinking" row while \<open>loading\<close>, the hint while there is nothing to show. The
  render throws when the row of a message does.
\<close>

definition chatWindow :: "app \<Rightarrow> exn + chatRow list" where
  "chatWindow st =
     (case collect (map renderMessage (messages st)) of
        Inl e \<Rightarrow> Inl e
      | Inr rows \<Rightarrow>
          Inr (rows
               @ (if loading st then [ThinkingRow] else [])
               @ (if length (messages st) = 0 \<and> \<not> loading st then [EmptyHint] else [])))"



section \<open>The calendar widget\<close>

subsection \<open>Dates\<close>

text \<open>
  A \<open>Date\<close> at local midnight, read through \<open>getFullYear\<close>, \<open>getMonth\<close>
  (0 is January) and \<open>getDate\<close>. The constructor \<open>new Date(year, monthIndex, day)\<close>
  is the language's: a year from 0 to 99 means 1900 + year, months beyond
  0..11 carry into the year, and days outside the month carry into the
  neighbouring months (day 0 is the last day of the month before). The model
  takes every civil date to have a local midnight.
\<close>

record jsdate =
  getFullYear :: int
  getMonth :: int
  getDate :: int

definition isLeapYear :: "int \<Rightarrow> bool" where
  "isLeapYear y \<longleftrightarrow> y mod 4 = 0 \<and> (y mod 100 \<noteq> 0 \<or> y mod 400 = 0)"

definition daysInMonthOf :: "int \<Rightarrow> int \<Rightarrow> int" where
  "daysInMonthOf y m =
     (if m = 1 then (if isLeapYear y then 29 else 28)
      else if m = 3 \<or> m = 5 \<or> m = 8 \<or> m = 10 then 30
      else 31)"

function normDay :: "int \<Rightarrow> int \<Rightarrow> int \<Rightarrow> jsdate" where
  "normDay y m d =
     (if d < 1 then
        (if m = 0 then normDay (y - 1) 11 (d + daysInMonthOf (y - 1) 11)
         else normDay y (m - 1) (d + daysInMonthOf y (m - 1)))
      else if daysInMonthOf y m < d then
        (if m = 11 then normDay (y + 1) 0 (d - daysInMonthOf y 11)
         else normDay y (m + 1) (d - daysInMonthOf y m))
      else \<lparr>getFullYear = y, getMonth = m, getDate = d\<rparr>)"
  by pat_completeness auto
termination
proof (relation "measure (\<lambda>(y, m, d). if d < 1 then nat (32 - d) else nat d)")
  have bounds: "28 \<le> daysInMonthOf y m \<and> daysInMonthOf y m \<le> 31" for y m
    by (simp add: daysInMonthOf_def)
  show "wf (measure (\<lambda>(y, m, d). if d < 1 then nat (32 - d) else nat d))"
    by simp
  fix y m d :: int
  show "((y - 1, 11, d + daysInMonthOf (y - 1) 11), y, m, d)
          \<in> measure (\<lambda>(y, m, d). if d < 1 then nat (32 - d) else nat d)"
    if "d < 1" "m = 0"
    using that bounds [of "y - 1" 11] by auto
  show "((y, m - 1, d + daysInMonthOf y (m - 1)), y, m, d)
          \<in> measure (\<lambda>(y, m, d). if d < 1 then nat (32 - d) else nat d)"
    if "d < 1" "m \<noteq> 0"
    using that bounds [of y "m - 1"] by auto
  show "((y + 1, 0, d - daysInMonthOf y 11), y, m, d)
          \<in> measure (\<lambda>(y, m, d). if d < 1 then nat (32 - d) else nat d)"
    if "\<not> d < 1" "daysInMonthOf y m < d" "m = 11"
    using that bounds [of y 11] by auto
  show "((y, m + 1, d - daysInMonthOf y m), y, m, d)
          \<in> measure (\<lambda>(y, m, d). if d < 1 then nat (32 - d) else nat d)"
    if "\<not> d < 1" "daysInMonthOf y m < d" "m \<noteq> 11"
    using that bounds [of y m] by auto
qed

declare normDay.simps [simp del]

definition newDate :: "int \<Rightarrow> int \<Rightarrow> int \<Rightarrow> jsdate" where
  "newDate year monthIndex day =
     (let y = (if 0 \<le> year \<and> year \<le> 99 then 1900 + year else year)
      in normDay (y + monthIndex div 12) (monthIndex mod 12) day)"

text \<open>
  \<open>getDay\<close>: the day number since 1 January 1970, a Thursday, gives the weekday,
  0 being Sunday.
\<close>

definition dayFromYear :: "int \<Rightarrow> int" where
  "dayFromYear y =
     365 * (y - 1970) + (y - 1969) div 4 - (y - 1901) div 100 + (y - 1601) div 400"

definition dayNumber :: "jsdate \<Rightarrow> int" where
  "dayNumber dt =
     dayFromYear (getFullYear dt)
     + sum_list (map (daysInMonthOf (getFullYear dt)) [0..getMonth dt - 1])
     + getDate dt - 1"

definition getDay :: "jsdate \<Rightarrow> int" where
  "getDay dt = (dayNumber dt + 4) mod 7"

text \<open>A date as the accessors of a \<open>Date\<close> object can give it.\<close>

definition validDate :: "jsdate \<Rightarrow> bool" where
  "validDate dt \<longleftrightarrow>
     0 \<le> getMonth dt \<and> getMonth dt \<le> 11 \<and>
     1 \<le> getDate dt \<and> getDate dt \<le> daysInMonthOf (getFullYear dt) (getMonth dt)"

subsection \<open>formatISODate and the grid\<close>

definition formatISODate :: "jsdate \<Rightarrow> jsstring" where
  "formatISODate date =
     (let year = numToString (getFullYear date);
          month = padStart2 (numToString (getMonth date + 1));
          day = padStart2 (numToString (getDate date))
      in year @ 0x2D # month @ 0x2D # day)"

text \<open>\<open>today\<close>: the date of \<open>now\<close>, rebuilt by the constructor.\<close>

definition todayOf :: "jsdate \<Rightarrow> jsdate" where
  "todayOf now = newDate (getFullYear now) (getMonth now) (getDate now)"

record cell =
  key :: jsstring
  label :: int
  isToday :: bool

record calendarView =
  calLabel :: jsstring
  cells :: "cell option list"

text \<open>\<open>while (cells.length % 7 !== 0) cells.push(null)\<close>\<close>

function padWeeks :: "'a option list \<Rightarrow> 'a option list" where
  "padWeeks cs = (if length cs mod 7 \<noteq> 0 then padWeeks (cs @ [None]) else cs)"
  by pat_completeness auto
termination
proof (relation "measure (\<lambda>cs. (7 - length cs mod 7) mod 7)")
  show "wf (measure (\<lambda>cs::'a option list. (7 - length cs mod 7) mod 7))"
    by simp
next
  fix cs :: "'a option list"
  assume nz: "length cs mod 7 \<noteq> 0"
  define r where "r = length cs mod 7"
  have r: "r < 7" "r \<noteq> 0"
    using nz by (simp_all add: r_def)
  have next_r: "Suc (length cs) mod 7 = (if Suc r = 7 then 0 else Suc r)"
    unfolding r_def by (rule mod_Suc)
  have "(7 - (if Suc r = 7 then 0 else Suc r)) mod 7 < (7 - r) mod 7"
    using r by auto
  then have "(7 - Suc (length cs) mod 7) mod 7 < (7 - length cs mod 7) mod 7"
    using next_r by (simp add: r_def)
  then show "(cs @ [None], cs) \<in> measure (\<lambda>cs. (7 - length cs mod 7) mod 7)"
    by simp
qed

declare padWeeks.simps [simp del]

text \<open>
  The first loop pushes \<open>startWeekday\<close> empty cells, the second one cell for each
  day from 1 to \<open>daysInMonth\<close>.
\<close>

definition calendar :: "jsdate \<Rightarrow> calendarView" where
  "calendar today =
     (let year = getFullYear today;
          monthIndex = getMonth today;
          firstDay = newDate year monthIndex 1;
          startWeekday = getDay firstDay;
          daysInMonth = getDate (newDate year (monthIndex + 1) 0);
          empties = replicate (nat startWeekday) None;
          days =
            map (\<lambda>day. Some \<lparr>key = formatISODate (newDate year monthIndex day),
                              label = day,
                              isToday = (day = getDate today)\<rparr>)
                [1..daysInMonth]
      in \<lparr>calLabel =
            numToString year @ [0xB144, 0x20] @ numToString (monthIndex + 1) @ [0xC6D4],
          cells = padWeeks (empties @ days)\<rparr>)"


section \<open>Auxiliary notions and sample inputs\<close>

text \<open>The messages a trace appends, in order, and the effects that are requests.\<close>

fun appended :: "effect list \<Rightarrow> message list" where
  "appended [] = []"
| "appended (AppendMessage m # effs) = m # appended effs"
| "appended (_ # effs) = appended effs"

definition isRequest :: "effect \<Rightarrow> bool" where
  "isRequest eff = (case eff of PostAsk _ \<Rightarrow> True | GetCalendarEvents \<Rightarrow> True | _ \<Rightarrow> False)"

text \<open>
  The resolution of the source image in the words of the specification: the
  embedded image if present, otherwise the URL, looked up under the aliases
  \<open>image_url\<close>, \<open>page_image\<close>, \<open>pageImage\<close> in that order, if present, otherwise
  the filesystem path if present, otherwise none (\<open>null\<close>). An alias is found when
  its value is neither \<open>undefined\<close> nor \<open>null\<close>; a candidate is present when it is
  truthy.
\<close>

fun firstDefined :: "json option list \<Rightarrow> json" where
  "firstDefined [] = JNull"
| "firstDefined (None # vs) = firstDefined vs"
| "firstDefined (Some JNull # vs) = firstDefined vs"
| "firstDefined (Some v # vs) = v"

fun firstPresent :: "json list \<Rightarrow> json" where
  "firstPresent [] = JNull"
| "firstPresent (v # vs) = (if truthy (Some v) then v else firstPresent vs)"

definition specSourceImage :: "json \<Rightarrow> json" where
  "specSourceImage page =
     firstPresent
       [firstDefined [field page ''image_base64''],
        firstDefined [field page ''image_url'', field page ''page_image'', field page ''pageImage''],
        firstDefined [field page ''image_path'']]"

text \<open>
  The messages a submit adds, by the three paths of the pipeline: none when the
  submit is rejected; otherwise the user's message followed by the agent message
  of the success path or by the apology of the failure path.
\<close>

definition submitted :: "app \<Rightarrow> env \<Rightarrow> message list" where
  "submitted st e =
     (if (trim (question st) = [] \<and> imageFile st = None) \<or> loading st then []
      else [userMessage st e (trim (question st)),
            (case askResult e of
               Inr (reply, _) \<Rightarrow> reply
             | Inl _ \<Rightarrow> apologyMessage (nowReply e))])"

text \<open>The stored message a row of the chat window shows, if it shows one.\<close>

fun storedOf :: "chatRow \<Rightarrow> message option" where
  "storedOf (MessageRow m b img) = Some m"
| "storedOf ThinkingRow = None"
| "storedOf EmptyHint = None"

text \<open>The two-digit and four-digit decimal fields of a date key \<open>YYYY-MM-DD\<close>.\<close>

definition twoDigits :: "int \<Rightarrow> jsstring" where
  "twoDigits k = [digit (nat k div 10), digit (nat k mod 10)]"

definition fourDigits :: "int \<Rightarrow> jsstring" where
  "fourDigits y =
     [digit (nat y div 1000), digit (nat y div 100 mod 10), digit (nat y div 10 mod 10),
      digit (nat y mod 10)]"

text \<open>
  Sample inputs. A state with the question " hi " typed, nothing attached and
  nothing in flight; a question-answering request answered with status 500; a
  calendar response with one event.
\<close>

definition typedHi :: app where
  "typedHi =
     \<lparr>messages = [], question = str '' hi '', loading = False, imageFile = None,
      imagePreviewUrl = None, calendarEvents = JArr [JInt 1], fileInputValue = Some []\<rparr>"

definition serverError :: env where
  "serverError =
     \<lparr>nowSubmit = 1700, nowReply = 1701, ragFetch = Resolved 500 None, calFetch = Rejected\<rparr>"

definition oneEvent :: fetched where
  "oneEvent = Resolved 200 (Some (JObj [(''events'', JArr [JStr (str ''e1'')])]))"

text \<open>
  An answer citing page 7, with the three image properties of the example of the
  specification; and the same answer citing a page that has an image but no page
  number.
\<close>

definition page7 :: json where
  "page7 =
     JObj [(''page'', JInt 7),
           (''image_base64'', JStr (str ''data:image/png;base64,AAAA'')),
           (''image_url'', JStr (str ''https://x/y.png'')),
           (''image_path'', JStr (str ''/local/p.png''))]"

definition helloPage7 :: json where
  "helloPage7 = JObj [(''answer'', JStr (str ''hello'')), (''pages'', JArr [page7])]"

definition citedPage7 :: env where
  "citedPage7 =
     \<lparr>nowSubmit = 1700, nowReply = 1701, ragFetch = Resolved 200 (Some helloPage7),
      calFetch = Rejected\<rparr>"

definition unnumberedPage :: json where
  "unnumberedPage = JObj [(''image_url'', JStr (str ''/manual_images/1/page_3.png''))]"

definition helloNoNumber :: json where
  "helloNoNumber =
     JObj [(''answer'', JStr (str ''hello'')), (''pages'', JArr [unnumberedPage])]"

definition noPageNumber :: env where
  "noPageNumber =
     \<lparr>nowSubmit = 1700, nowReply = 1701, ragFetch = Resolved 200 (Some helloNoNumber),
      calFetch = Rejected\<rparr>"

text \<open>
  A reminder, answered under \<open>result\<close>, with the calendar returning one event;
  an answer whose \<open>pages\<close> is a string; the date 2 November 2026.
\<close>

definition remindPayload :: json where
  "remindPayload = JObj [(''result'', JStr (str ''done'')), (''intent'', JStr (str ''reminder''))]"

definition reminded :: env where
  "reminded =
     \<lparr>nowSubmit = 1700, nowReply = 1701, ragFetch = Resolved 200 (Some remindPayload),
      calFetch = oneEvent\<rparr>"

definition pagesAsText :: json where
  "pagesAsText = JObj [(''answer'', JStr (str ''hello'')), (''pages'', JStr (str ''p.3''))]"

definition pagesNotArray :: env where
  "pagesNotArray =
     \<lparr>nowSubmit = 1700, nowReply = 1701, ragFetch = Resolved 200 (Some pagesAsText),
      calFetch = Rejected\<rparr>"

definition nov2 :: jsdate where
  "nov2 = \<lparr>getFullYear = 2026, getMonth = 10, getDate = 2\<rparr>"

section \<open>Properties\<close>

subsection \<open>Running a trace\<close>

lemma run_Nil [simp]: "run st [] = st"
  by (simp add: run_def)

lemma run_Cons [simp]: "run st (eff # effs) = run (applyEffect st eff) effs"
  by (simp add: run_def)

lemma run_append: "run st (xs @ ys) = run (run st xs) ys"
  by (simp add: run_def)

lemma appended_append [simp]: "appended (xs @ ys) = appended xs @ appended ys"
  by (induction xs rule: appended.induct) simp_all

lemma messages_run: "messages (run st effs) = messages st @ appended effs"
proof (induction effs arbitrary: st)
  case Nil
  show ?case by simp
next
  case (Cons eff effs)
  show ?case by (cases eff) (simp_all add: Cons.IH)
qed

lemma appended_fetchEventsTrace [simp]: "appended (fetchEventsTrace r) = []"
  by (simp add: fetchEventsTrace_def split: sum.split)

lemma run_finally:
  "loading (run st (effs @ submitFinally st')) = False
   \<and> imageFile (run st (effs @ submitFinally st')) = None"
  by (simp add: run_append submitFinally_def)

lemma orElse_falsy: "\<not> truthy a \<Longrightarrow> orElse a d = d"
  by (cases a) simp_all

lemma fetchEvents_state:
  "fetchEvents st r =
     st\<lparr>calendarEvents := (case fetchEventsTry r of Inr evs \<Rightarrow> evs | Inl _ \<Rightarrow> JArr [])\<rparr>"
  by (simp add: fetchEvents_def fetchEventsTrace_def split: sum.split)

subsection \<open>The guard of handleSubmit\<close>

text \<open>
  C3. A submit with an empty trimmed question and no attached image, or while a
  submission is in flight, does nothing: the handler only prevents the default
  action of the event, so the state (messages, question, loading flag, image
  state) is the one before and the trace holds no request.
\<close>

theorem rejected_submit_is_noop:
  assumes "(trim (question st) = [] \<and> imageFile st = None) \<or> loading st"
  shows "handleSubmitTrace st e = [PreventDefault]
         \<and> handleSubmit st e = st
         \<and> messages (handleSubmit st e) = messages st
         \<and> \<not> list_ex isRequest (handleSubmitTrace st e)"
proof -
  have "handleSubmitTrace st e = [PreventDefault]"
    using assms by (auto simp: handleSubmitTrace_def Let_def)
  then show ?thesis
    by (simp add: handleSubmit_def isRequest_def)
qed

theorem rejected_submit_is_noop_witness:
  "trim (question (typedHi\<lparr>question := str ''  ''\<rparr>)) = []
   \<and> imageFile (typedHi\<lparr>question := str ''  ''\<rparr>) = None
   \<and> handleSubmit (typedHi\<lparr>question := str ''  ''\<rparr>) serverError
       = typedHi\<lparr>question := str ''  ''\<rparr>
   \<and> loading (typedHi\<lparr>loading := True\<rparr>)
   \<and> handleSubmit (typedHi\<lparr>loading := True\<rparr>) serverError = typedHi\<lparr>loading := True\<rparr>"
  using rejected_submit_is_noop [of "typedHi\<lparr>question := str ''  ''\<rparr>" serverError]
    rejected_submit_is_noop [of "typedHi\<lparr>loading := True\<rparr>" serverError]
  by (simp add: typedHi_def trim_def str_def isWhiteSpace_def)

subsection \<open>The failure path\<close>

text \<open>
  C5. When an accepted submit fails (the request is rejected, the status is not
  2xx, or the body is not JSON), the messages appended are the user's message and
  then exactly one agent message: the fixed apology, with no source image and no
  citation marker; the loading flag and the attached file are cleared.
\<close>

theorem failure_appends_apology:
  assumes accepted: "\<not> ((trim (question st) = [] \<and> imageFile st = None) \<or> loading st)"
    and failed: "ragFetch e = Rejected
                 \<or> (\<exists>status body. ragFetch e = Resolved status body
                       \<and> (\<not> ok status \<or> body = None))"
  shows "messages (handleSubmit st e)
           = messages st @ [userMessage st e (trim (question st)), apologyMessage (nowReply e)]
         \<and> role (userMessage st e (trim (question st))) = User
         \<and> role (apologyMessage (nowReply e)) = Agent
         \<and> content (apologyMessage (nowReply e)) = JStr apologyText
         \<and> sourceImage (apologyMessage (nowReply e)) = None
         \<and> \<not> includesStr apologyText refMarker
         \<and> loading (handleSubmit st e) = False
         \<and> imageFile (handleSubmit st e) = None"
proof -
  have "\<exists>err. askResult e = Inl err"
    using failed by (auto simp: askResult_def)
  then obtain err where err: "askResult e = Inl err" ..
  have trace: "handleSubmitTrace st e
      = [PreventDefault, AppendMessage (userMessage st e (trim (question st))),
         SetQuestion [], SetLoading True, SetImagePreviewUrl None]
        @ (fst (submitTry st e (trim (question st))) @ submitCatch e err) @ submitFinally st"
    using accepted err by (simp add: handleSubmitTrace_def submitTry_def Let_def)
  have msgs: "messages (handleSubmit st e)
           = messages st @ [userMessage st e (trim (question st)), apologyMessage (nowReply e)]"
    using err
    by (simp add: handleSubmit_def messages_run trace submitTry_def submitCatch_def
        submitFinally_def Let_def)
  have fin: "loading (handleSubmit st e) = False \<and> imageFile (handleSubmit st e) = None"
    unfolding handleSubmit_def trace using run_finally by (metis append_assoc)
  have nocite: "\<not> includesStr apologyText refMarker"
    by (simp add: apologyText_def refMarker_def)
  show ?thesis
    using msgs fin nocite by (simp add: userMessage_def apologyMessage_def)
qed

theorem failure_appends_apology_witness:
  "\<not> ((trim (question typedHi) = [] \<and> imageFile typedHi = None) \<or> loading typedHi)
   \<and> ragFetch serverError = Resolved 500 None \<and> \<not> ok 500
   \<and> map content (messages (handleSubmit typedHi serverError))
       = [JStr (str ''hi''), JStr apologyText]
   \<and> map role (messages (handleSubmit typedHi serverError)) = [User, Agent]
   \<and> loading (handleSubmit typedHi serverError) = False"
  using failure_appends_apology [of typedHi serverError]
  by (simp add: typedHi_def serverError_def trim_def str_def isWhiteSpace_def ok_def
      userMessage_def apologyMessage_def)

subsection \<open>fetchEvents\<close>

text \<open>
  C7. After a fetch of the calendar events, the event list is the \<open>events\<close> of a
  2xx response, the empty list when that property is absent (or falsy), and the
  empty list after any failure: a rejected request, a status that is not 2xx, a
  body that is not JSON. The new list does not depend on the old one, and
  nothing else of the state changes; in particular no message is added.
\<close>

theorem fetchEvents_replaces_or_clears:
  "(\<forall>status data evs.
      r = Resolved status (Some data) \<and> ok status
      \<and> field data ''events'' = Some evs \<and> truthy (Some evs)
      \<longrightarrow> calendarEvents (fetchEvents st r) = evs)
   \<and> (\<forall>status data.
      r = Resolved status (Some data) \<and> ok status \<and> \<not> truthy (field data ''events'')
      \<longrightarrow> calendarEvents (fetchEvents st r) = JArr [])
   \<and> (r = Rejected
       \<or> (\<exists>status body. r = Resolved status body \<and> (\<not> ok status \<or> body = None))
      \<longrightarrow> calendarEvents (fetchEvents st r) = JArr [])
   \<and> fetchEvents st r = st\<lparr>calendarEvents := calendarEvents (fetchEvents st' r)\<rparr>
   \<and> messages (fetchEvents st r) = messages st"
  apply (simp add: fetchEvents_state)
  apply (auto simp: fetchEventsTry_def getProp_def orElse_falsy
              split: sum.splits fetched.splits option.splits if_splits)
  done

theorem fetchEvents_replaces_or_clears_witness:
  "ok 200
   \<and> calendarEvents (fetchEvents typedHi oneEvent) = JArr [JStr (str ''e1'')]
   \<and> calendarEvents (fetchEvents typedHi (Resolved 200 (Some (JObj [])))) = JArr []
   \<and> calendarEvents (fetchEvents typedHi (Resolved 503 None)) = JArr []
   \<and> calendarEvents (fetchEvents typedHi Rejected) = JArr []"
  using fetchEvents_replaces_or_clears [of oneEvent typedHi typedHi]
    fetchEvents_replaces_or_clears [of "Resolved 200 (Some (JObj []))" typedHi typedHi]
    fetchEvents_replaces_or_clears [of "Resolved 503 None" typedHi typedHi]
    fetchEvents_replaces_or_clears [of Rejected typedHi typedHi]
  by (simp add: oneEvent_def ok_def)

subsection \<open>The success path\<close>



lemma getProp_defined: "v \<noteq> JNull \<Longrightarrow> getProp v k = Inr (field v k)"
  by (simp add: getProp_def)

lemma citeFirstPage_reminder: "citeFirstPage True pages a = Inr (a, JNull)"
  by (simp add: citeFirstPage_def split: list.split)

lemma citeFirstPage_Nil: "citeFirstPage r [] a = Inr (a, JNull)"
  by (simp add: citeFirstPage_def)

lemma agentReply_defined:
  assumes "data \<noteq> JNull"
  shows "agentReply now data =
     (case citeFirstPage (intentOf data = JStr (str ''reminder'')) (pagesOf data) (answerTextOf data) of
        Inl err \<Rightarrow> Inl err
      | Inr (decoratedAnswer, srcImage) \<Rightarrow>
          Inr (agentMessage now decoratedAnswer (intentOf data = JStr (str ''reminder'')) srcImage,
               intentOf data = JStr (str ''reminder'')))"
  using assms
  by (simp add: agentReply_def getProp_defined Let_def split: sum.split)

lemma askResult_ok:
  assumes "ragFetch e = Resolved status (Some data)" "ok status"
  shows "askResult e = agentReply (nowReply e) data"
  using assms by (simp add: askResult_def)

lemma handleSubmit_success:
  assumes accepted: "\<not> ((trim (question st) = [] \<and> imageFile st = None) \<or> loading st)"
    and res: "askResult e = Inr (m, r)"
  shows "messages (handleSubmit st e) = messages st @ [userMessage st e (trim (question st)), m]"
  using assms
  by (simp add: handleSubmit_def messages_run handleSubmitTrace_def submitTry_def
      submitFinally_def Let_def)

lemma handleSubmit_failure:
  assumes accepted: "\<not> ((trim (question st) = [] \<and> imageFile st = None) \<or> loading st)"
    and res: "askResult e = Inl err"
  shows "messages (handleSubmit st e)
       = messages st @ [userMessage st e (trim (question st)), apologyMessage (nowReply e)]"
  using assms
  by (simp add: handleSubmit_def messages_run handleSubmitTrace_def submitTry_def
      submitCatch_def submitFinally_def Let_def)

text \<open>
  The body of the citation branch, by cases on the page number; the source image
  chosen by the nested conditionals is the first present candidate.
\<close>

lemma citeFirstPage_cases:
  assumes "firstPage \<noteq> JNull"
  shows "citeFirstPage False (firstPage # rest) answerText =
     (case coalesce (field firstPage ''page'') (field firstPage ''page_number'') of
        None \<Rightarrow> Inr (answerText, specSourceImage firstPage)
      | Some n \<Rightarrow>
          if \<not> truthy (Some n) then Inr (answerText, specSourceImage firstPage)
          else (case jsIncludes answerText refMarker of
                  Inl err \<Rightarrow> Inl err
                | Inr found \<Rightarrow>
                    if found then Inr (answerText, specSourceImage firstPage)
                    else (case toString n of
                            Inl err \<Rightarrow> Inl err
                          | Inr pageText \<Rightarrow>
                              (case toString answerText of
                                 Inl err \<Rightarrow> Inl err
                               | Inr text \<Rightarrow>
                                   Inr (JStr (text @ citationLine pageText),
                                        specSourceImage firstPage)))))"
proof -
  have d1: "firstDefined [a] = orDefault a JNull" for a
    by (cases a rule: nullish.cases) simp_all
  have d3: "firstDefined [a, b, c] = orDefault (coalesce (coalesce a b) c) JNull" for a b c
    by (cases a rule: nullish.cases; cases b rule: nullish.cases; cases c rule: nullish.cases)
       (simp_all add: coalesce_def)
  show ?thesis
    using assms
    by (simp add: citeFirstPage_def getProp_defined specSourceImage_def d1 d3 Let_def
        split: option.split sum.split)
qed



lemma handleSubmitTrace_same_result:
  assumes "nowSubmit e' = nowSubmit e" "nowReply e' = nowReply e" "calFetch e' = calFetch e"
    "askResult e' = askResult e"
  shows "handleSubmitTrace st e' = handleSubmitTrace st e"
  using assms
  by (simp add: handleSubmitTrace_def submitTry_def submitCatch_def userMessage_def Let_def
      split: sum.split prod.split)


text \<open>
  C10. When the \<open>pages\<close> property of the payload is absent or is not an array,
  the list of cited pages is empty and the success path completes: the agent
  message carries the answer text as it is, with no citation line, and no source
  image; and the handler does exactly what it does for the same payload with
  \<open>pages\<close> set to the empty array.
\<close>

theorem pages_not_array:
  assumes accepted: "\<not> ((trim (question st) = [] \<and> imageFile st = None) \<or> loading st)"
    and resp: "ragFetch e = Resolved status (Some data)" "ok status" "data \<noteq> JNull"
    and no_array: "\<forall>ps. field data ''pages'' \<noteq> Some (JArr ps)"
  shows "pagesOf data = []
         \<and> askResult e
             = Inr (agentMessage (nowReply e) (answerTextOf data)
                      (intentOf data = JStr (str ''reminder'')) JNull,
                    intentOf data = JStr (str ''reminder''))
         \<and> messages (handleSubmit st e)
             = messages st
               @ [userMessage st e (trim (question st)),
                  agentMessage (nowReply e) (answerTextOf data)
                    (intentOf data = JStr (str ''reminder'')) JNull]
         \<and> content (last (messages (handleSubmit st e))) = answerTextOf data
         \<and> sourceImage (last (messages (handleSubmit st e))) = Some JNull
         \<and> (\<forall>kvs. data = JObj kvs \<longrightarrow>
               handleSubmitTrace st e
               = handleSubmitTrace st
                   (e\<lparr>ragFetch := Resolved status (Some (JObj ((''pages'', JArr []) # kvs)))\<rparr>))"
proof -
  have pages: "pagesOf data = []"
    using no_array by (auto simp: pagesOf_def split: option.split json.split)
  have res: "askResult e
             = Inr (agentMessage (nowReply e) (answerTextOf data)
                      (intentOf data = JStr (str ''reminder'')) JNull,
                    intentOf data = JStr (str ''reminder''))"
    using resp by (simp add: askResult_ok agentReply_defined pages citeFirstPage_Nil)
  have msgs: "messages (handleSubmit st e)
             = messages st
               @ [userMessage st e (trim (question st)),
                  agentMessage (nowReply e) (answerTextOf data)
                    (intentOf data = JStr (str ''reminder'')) JNull]"
    by (rule handleSubmit_success [OF accepted res])
  have same: "handleSubmitTrace st e
               = handleSubmitTrace st
                   (e\<lparr>ragFetch := Resolved status (Some (JObj ((''pages'', JArr []) # kvs)))\<rparr>)"
    if obj: "data = JObj kvs" for kvs
  proof -
    let ?data' = "JObj ((''pages'', JArr []) # kvs)"
    let ?e' = "e\<lparr>ragFetch := Resolved status (Some ?data')\<rparr>"
    have "answerTextOf ?data' = answerTextOf data" "intentOf ?data' = intentOf data"
      "pagesOf ?data' = []"
      using obj by (simp_all add: answerTextOf_def intentOf_def pagesOf_def)
    moreover have "askResult ?e' = agentReply (nowReply e) ?data'"
      using resp(2) by (simp add: askResult_def)
    ultimately have "askResult ?e' = askResult e"
      by (simp add: res agentReply_defined citeFirstPage_Nil)
    then show ?thesis
      by (intro handleSubmitTrace_same_result [symmetric]) simp_all
  qed
  have last_msg: "content (last (messages (handleSubmit st e))) = answerTextOf data
         \<and> sourceImage (last (messages (handleSubmit st e))) = Some JNull"
    by (simp add: msgs agentMessage_def)
  show ?thesis
    using pages res msgs last_msg same by blast
qed


theorem pages_not_array_witness:
  "field pagesAsText ''pages'' = Some (JStr (str ''p.3''))
   \<and> pagesOf pagesAsText = []
   \<and> content (last (messages (handleSubmit typedHi pagesNotArray))) = JStr (str ''hello'')
   \<and> sourceImage (last (messages (handleSubmit typedHi pagesNotArray))) = Some JNull"
  using pages_not_array [of typedHi pagesNotArray 200 pagesAsText]
  by (simp add: typedHi_def pagesNotArray_def pagesAsText_def trim_def isWhiteSpace_def
      str_def ok_def answerTextOf_def coalesce_def pagesOf_def agentMessage_def)

subsection \<open>Citation and source image\<close>

lemma citationLine_nonempty: "citationLine n \<noteq> []"
  by (simp add: citationLine_def)


text \<open>
  Page numbers off the common path: a number the language prints with an
  exponent is cited as printed, and an object with an own \<open>toString\<close> property
  cannot be converted, so the \<open>try\<close> block throws.
\<close>

lemma citeFirstPage_exponent:
  "citeFirstPage False [JObj [(''page'', JNumber (str ''1e+21''))]] (JStr (str ''hello''))
   = Inr (JStr (str ''hello'' @ citationLine (str ''1e+21'')), JNull)"
  by (simp add: citeFirstPage_def getProp_def coalesce_def refMarker_def str_def)

lemma citeFirstPage_unconvertible:
  "citeFirstPage False [JObj [(''page'', JObj [(''toString'', JInt 1)])]] (JStr (str ''hello''))
   = Inl TypeError"
  by (simp add: citeFirstPage_def getProp_def coalesce_def refMarker_def str_def)

lemmas reply_defs =
  askResult_def agentReply_def getProp_def citeFirstPage_def answerTextOf_def intentOf_def
  pagesOf_def coalesce_def agentMessage_def citationLine_def refMarker_def numToString_def
  str_def ok_def

lemma askResult_role: "askResult e = Inr (m, r) \<Longrightarrow> role m = Agent"
  by (auto simp: askResult_def agentReply_def agentMessage_def Let_def
      split: fetched.splits option.splits if_splits sum.splits)

lemma last_message_agent:
  assumes accepted: "\<not> ((trim (question st) = [] \<and> imageFile st = None) \<or> loading st)"
  shows "role (last (messages (handleSubmit st e))) = Agent"
proof (cases "askResult e")
  case (Inl err)
  then show ?thesis
    using handleSubmit_failure [OF accepted Inl] by (simp add: apologyMessage_def)
next
  case (Inr res)
  obtain m r where res: "res = (m, r)" by (cases res)
  show ?thesis
    using handleSubmit_success [OF accepted Inr [unfolded res]]
      askResult_role [OF Inr [unfolded res]] by simp
qed

text \<open>
  C1, as amended. For a 2xx response with a string answer, an intent other than
  \<open>reminder\<close> and a non-empty list of cited pages whose first page is not
  \<open>null\<close>: when the page number of the first page (\<open>page\<close>, else
  \<open>page_number\<close>) is truthy and converts to a string, the content of the
  appended agent message is the answer with the citation line of that string
  appended if and only if the answer does not contain the marker; when the page
  number is truthy and the answer contains the marker, the content is the answer
  unchanged; when the first page has no page number (absent or \<open>null\<close>), the
  content is the answer unchanged.
\<close>

theorem citation_line:
  assumes accepted: "\<not> ((trim (question st) = [] \<and> imageFile st = None) \<or> loading st)"
    and resp: "ragFetch e = Resolved status (Some data)" "ok status" "data \<noteq> JNull"
    and answer: "answerTextOf data = JStr a"
    and intent: "intentOf data \<noteq> JStr (str ''reminder'')"
    and pages: "pagesOf data = firstPage # rest"
    and page: "firstPage \<noteq> JNull"
  shows "role (last (messages (handleSubmit st e))) = Agent
     \<and> (\<forall>n pageText.
           coalesce (field firstPage ''page'') (field firstPage ''page_number'') = Some n
           \<and> truthy (Some n) \<and> toString n = Inr pageText \<longrightarrow>
           (content (last (messages (handleSubmit st e))) = JStr (a @ citationLine pageText)
              \<longleftrightarrow> \<not> includesStr a refMarker))
     \<and> (\<forall>n. coalesce (field firstPage ''page'') (field firstPage ''page_number'') = Some n
             \<and> truthy (Some n) \<and> includesStr a refMarker \<longrightarrow>
           content (last (messages (handleSubmit st e))) = JStr a)
     \<and> (nullish (coalesce (field firstPage ''page'') (field firstPage ''page_number''))
          \<longrightarrow> content (last (messages (handleSubmit st e))) = JStr a)"
proof -
  define pageNum
    where "pageNum = coalesce (field firstPage ''page'') (field firstPage ''page_number'')"
  have stored: "content (last (messages (handleSubmit st e))) = decorated"
    if "citeFirstPage False (firstPage # rest) (JStr a) = Inr (decorated, src)"
    for decorated src
  proof -
    have "askResult e = Inr (agentMessage (nowReply e) decorated False src, False)"
      using resp intent that by (simp add: askResult_ok agentReply_defined answer pages)
    then have "messages (handleSubmit st e)
        = messages st @ [userMessage st e (trim (question st)),
                         agentMessage (nowReply e) decorated False src]"
      by (rule handleSubmit_success [OF accepted])
    then show ?thesis
      by (simp add: agentMessage_def)
  qed
  have cited: "content (last (messages (handleSubmit st e))) = JStr (a @ citationLine pageText)
           \<longleftrightarrow> \<not> includesStr a refMarker"
    if "pageNum = Some n" "truthy (Some n)" "toString n = Inr pageText" for n pageText
  proof -
    have "citeFirstPage False (firstPage # rest) (JStr a)
          = Inr (if includesStr a refMarker then JStr a else JStr (a @ citationLine pageText),
                 specSourceImage firstPage)"
      using page that by (simp add: citeFirstPage_cases pageNum_def [symmetric])
    then show ?thesis
      using stored by (simp add: citationLine_nonempty)
  qed
  have marked: "content (last (messages (handleSubmit st e))) = JStr a"
    if "pageNum = Some n" "truthy (Some n)" "includesStr a refMarker" for n
  proof -
    have "citeFirstPage False (firstPage # rest) (JStr a)
          = Inr (JStr a, specSourceImage firstPage)"
      using page that by (simp add: citeFirstPage_cases pageNum_def [symmetric])
    then show ?thesis
      by (rule stored)
  qed
  have unnumbered: "content (last (messages (handleSubmit st e))) = JStr a"
    if "nullish pageNum"
  proof -
    have "citeFirstPage False (firstPage # rest) (JStr a)
          = Inr (JStr a, specSourceImage firstPage)"
      using page that
      by (cases pageNum rule: nullish.cases)
         (simp_all add: citeFirstPage_cases pageNum_def [symmetric])
    then show ?thesis
      by (rule stored)
  qed
  show ?thesis
    using last_message_agent [OF accepted] cited marked unnumbered
    unfolding pageNum_def by blast
qed

theorem citation_line_witness:
  "answerTextOf helloPage7 = JStr (str ''hello'')
   \<and> pagesOf helloPage7 = [page7]
   \<and> coalesce (field page7 ''page'') (field page7 ''page_number'') = Some (JInt 7)
   \<and> toString (JInt 7) = Inr (str ''7'')
   \<and> \<not> includesStr (str ''hello'') refMarker
   \<and> content (last (messages (handleSubmit typedHi citedPage7)))
      = JStr (str ''hello'' @ citationLine (str ''7''))
   \<and> citationLine (str ''7'')
      = [0xA, 0xA, 0x28, 0xCC38, 0xACE0, 0x3A, 0x20, 0xB9E4, 0xB274, 0xC5BC, 0x20, 0x70, 0x2E,
         0x37, 0x20, 0xAE30, 0xBC18, 0x20, 0xB2F5, 0xBCC0, 0x29]
   \<and> pagesOf helloNoNumber = [unnumberedPage]
   \<and> nullish (coalesce (field unnumberedPage ''page'') (field unnumberedPage ''page_number''))
   \<and> content (last (messages (handleSubmit typedHi noPageNumber))) = JStr (str ''hello'')"
  using citation_line [of typedHi citedPage7 200 helloPage7 "str ''hello''" page7 "[]"]
    citation_line [of typedHi noPageNumber 200 helloNoNumber "str ''hello''" unnumberedPage "[]"]
  by (simp add: typedHi_def citedPage7_def helloPage7_def page7_def noPageNumber_def
      helloNoNumber_def unnumberedPage_def trim_def isWhiteSpace_def reply_defs
      digits.simps [of 7] digit_def)

text \<open>
  C1 as stated fails: the first cited page of this successful response, which
  is not a reminder, has no page number; the answer does not contain the marker,
  and yet the content of the agent message is the answer with nothing appended.
\<close>

theorem citation_line_counterexample:
  "ok 200
   \<and> ragFetch noPageNumber = Resolved 200 (Some helloNoNumber)
   \<and> intentOf helloNoNumber \<noteq> JStr (str ''reminder'')
   \<and> pagesOf helloNoNumber \<noteq> []
   \<and> answerTextOf helloNoNumber = JStr (str ''hello'')
   \<and> \<not> includesStr (str ''hello'') refMarker
   \<and> role (last (messages (handleSubmit typedHi noPageNumber))) = Agent
   \<and> content (last (messages (handleSubmit typedHi noPageNumber))) = JStr (str ''hello'')"
  by (simp add: typedHi_def noPageNumber_def helloNoNumber_def unnumberedPage_def trim_def
      isWhiteSpace_def reply_defs handleSubmit_def handleSubmitTrace_def submitTry_def submitFinally_def
      userMessage_def Let_def)





subsection \<open>The message sequence\<close>

lemma appended_handleSubmitTrace: "appended (handleSubmitTrace st e) = submitted st e"
  by (simp add: handleSubmitTrace_def submitted_def submitTry_def submitCatch_def
      submitFinally_def Let_def split: sum.split prod.split)

lemma appended_take:
  "appended (take k effs) = take (length (appended (take k effs))) (appended effs)"
proof -
  have "appended effs = appended (take k effs) @ appended (drop k effs)"
    by (metis appended_append append_take_drop_id)
  then show ?thesis
    by simp
qed

lemma appended_take_mono:
  assumes "i \<le> j"
  shows "length (appended (take i effs)) \<le> length (appended (take j effs))"
proof -
  have "take j effs = take i effs @ drop i (take j effs)"
    using assms by (metis append_take_drop_id min.absorb1 take_take)
  then have "appended (take j effs) = appended (take i effs) @ appended (drop i (take j effs))"
    by (metis appended_append)
  then show ?thesis
    by simp
qed

lemma collect_Inr: "collect rs = Inr xs \<Longrightarrow> rs = map Inr xs"
proof (induction rs arbitrary: xs rule: collect.induct)
  case 1
  then show ?case by simp
next
  case (2 e rs)
  then show ?case by simp
next
  case (3 x rs)
  then show ?case by (auto split: sum.splits)
qed

lemma collect_Inl: "(\<exists>e. collect rs = Inl e) \<longleftrightarrow> (\<exists>r \<in> set rs. \<exists>e. r = Inl e)"
  by (induction rs rule: collect.induct) (auto split: sum.splits)

lemma storedOf_renderMessage: "renderMessage m = Inr row \<Longrightarrow> storedOf row = Some m"
  by (auto simp: renderMessage_def split: sum.splits)

lemma stored_rows:
  assumes "collect (map renderMessage ms) = Inr rows"
  shows "map storedOf rows = map Some ms"
proof -
  have eq: "map renderMessage ms = map Inr rows"
    using assms by (rule collect_Inr)
  then have len: "length rows = length ms"
    by (metis length_map)
  show ?thesis
  proof (rule nth_equalityI)
    show "length (map storedOf rows) = length (map Some ms)"
      by (simp add: len)
  next
    fix i assume "i < length (map storedOf rows)"
    then have i: "i < length ms" "i < length rows"
      by (simp_all add: len)
    have "renderMessage (ms ! i) = Inr (rows ! i)"
      using eq i by (metis nth_map)
    then show "map storedOf rows ! i = map Some ms ! i"
      using i by (simp add: storedOf_renderMessage)
  qed
qed

text \<open>
  C8. The stored messages only grow at the end. A rejected submit adds nothing;
  an accepted one adds the user's message and then the agent message of the
  success path or the apology of the failure path (\<open>submitted\<close>). After every
  step of the handler the stored sequence is the one before the submit followed
  by a prefix of those messages, a longer prefix at a later step; a fetch of the
  events leaves the sequence alone. When the chat window renders, its first rows
  show the stored messages, one each and in order, and the rows after them are
  the "thinking" row exactly while \<open>loading\<close> holds (or the hint): that row
  comes from the flag, not from the stored sequence. The render throws exactly
  when the row of a stored message does, whatever the flag.
\<close>

theorem messages_append_only:
  "messages (handleSubmit st e) = messages st @ submitted st e
   \<and> (\<forall>i j. i \<le> j \<longrightarrow>
         (\<exists>n n'. n \<le> n'
            \<and> messages (run st (take i (handleSubmitTrace st e)))
                = messages st @ take n (submitted st e)
            \<and> messages (run st (take j (handleSubmitTrace st e)))
                = messages st @ take n' (submitted st e)))
   \<and> messages (fetchEvents st r) = messages st
   \<and> (\<forall>rows. chatWindow st = Inr rows \<longrightarrow>
         map storedOf (take (length (messages st)) rows) = map Some (messages st)
         \<and> drop (length (messages st)) rows
             = (if loading st then [ThinkingRow]
                else if messages st = [] then [EmptyHint] else []))
   \<and> ((\<exists>err. chatWindow st = Inl err)
        \<longleftrightarrow> (\<exists>m \<in> set (messages st). \<exists>err. renderMessage m = Inl err))"
proof -
  let ?tr = "handleSubmitTrace st e"
  have whole: "messages (handleSubmit st e) = messages st @ submitted st e"
    by (simp add: handleSubmit_def messages_run appended_handleSubmitTrace)
  have step: "messages (run st (take k ?tr))
              = messages st @ take (length (appended (take k ?tr))) (submitted st e)" for k
    using appended_take [of k ?tr] by (simp add: messages_run appended_handleSubmitTrace)
  have steps: "\<exists>n n'. n \<le> n'
            \<and> messages (run st (take i ?tr)) = messages st @ take n (submitted st e)
            \<and> messages (run st (take j ?tr)) = messages st @ take n' (submitted st e)"
    if "i \<le> j" for i j
    using appended_take_mono [OF that, of ?tr] step [of i] step [of j] by blast
  have cal: "messages (fetchEvents st r) = messages st"
    by (simp add: fetchEvents_def messages_run)
  have rows: "map storedOf (take (length (messages st)) rows) = map Some (messages st)
         \<and> drop (length (messages st)) rows
             = (if loading st then [ThinkingRow]
                else if messages st = [] then [EmptyHint] else [])"
    if "chatWindow st = Inr rows" for rows
  proof (cases "collect (map renderMessage (messages st))")
    case (Inl err)
    then show ?thesis
      using that by (simp add: chatWindow_def)
  next
    case (Inr mrows)
    then have all: "rows = mrows
               @ (if loading st then [ThinkingRow] else [])
               @ (if length (messages st) = 0 \<and> \<not> loading st then [EmptyHint] else [])"
      using that by (simp add: chatWindow_def)
    have stored: "map storedOf mrows = map Some (messages st)"
      using Inr by (rule stored_rows)
    then have len: "length mrows = length (messages st)"
      by (metis length_map)
    show ?thesis
      using stored len by (simp add: all)
  qed
  have throws: "(\<exists>err. chatWindow st = Inl err)
        \<longleftrightarrow> (\<exists>m \<in> set (messages st). \<exists>err. renderMessage m = Inl err)"
  proof -
    have "(\<exists>err. chatWindow st = Inl err)
          \<longleftrightarrow> (\<exists>err. collect (map renderMessage (messages st)) = Inl err)"
      by (auto simp: chatWindow_def split: sum.splits)
    then show ?thesis
      by (simp add: collect_Inl)
  qed
  show ?thesis
    using whole steps cal rows throws by blast
qed

theorem messages_append_only_witness:
  "map content (submitted typedHi serverError) = [JStr (str ''hi''), JStr apologyText]
   \<and> map content (messages (run typedHi (take 2 (handleSubmitTrace typedHi serverError))))
     = [JStr (str ''hi'')]
   \<and> map content (messages (run typedHi (take 8 (handleSubmitTrace typedHi serverError))))
     = [JStr (str ''hi''), JStr apologyText]
   \<and> chatWindow (run typedHi (take 4 (handleSubmitTrace typedHi serverError)))
     = Inr [MessageRow (userMessage typedHi serverError (str ''hi''))
              (Lines [str ''hi'']) None,
            ThinkingRow]"
  using messages_append_only [of typedHi serverError Rejected]
    messages_append_only
      [of "run typedHi (take 4 (handleSubmitTrace typedHi serverError))" serverError Rejected]
  by (simp add: typedHi_def serverError_def trim_def str_def isWhiteSpace_def ok_def
      handleSubmitTrace_def submitTry_def submitCatch_def submitFinally_def askResult_def
      submitted_def userMessage_def apologyMessage_def chatWindow_def renderMessage_def
      renderBubble_def renderSourceImage_def Let_def)

subsection \<open>The refresh of a reminder\<close>

lemma loading_run_unchanged:
  "\<forall>b. SetLoading b \<notin> set effs \<Longrightarrow> loading (run st effs) = loading st"
proof (induction effs arbitrary: st)
  case Nil
  show ?case by simp
next
  case (Cons eff effs)
  then show ?case by (cases eff) auto
qed

lemma calendarEvents_run_unchanged:
  "\<forall>evs. SetCalendarEvents evs \<notin> set effs \<Longrightarrow> calendarEvents (run st effs) = calendarEvents st"
proof (induction effs arbitrary: st)
  case Nil
  show ?case by simp
next
  case (Cons eff effs)
  then show ?case by (cases eff) auto
qed

lemma fetchEventsTrace_no_SetLoading: "SetLoading b \<notin> set (fetchEventsTrace r)"
  by (simp add: fetchEventsTrace_def split: sum.split)

lemma calendarEvents_run_fetch:
  "calendarEvents (run st (fetchEventsTrace r)) = calendarEvents (fetchEvents st' r)"
  by (simp add: fetchEvents_def fetchEventsTrace_def split: sum.split)

text \<open>
  C9. For a successful response with intent \<open>reminder\<close>, the trace of the
  submit is a prefix that sets the loading flag, then the whole fetch of the
  calendar events, from its request to the setting of the event list, then the
  \<open>finally\<close> block, which begins by clearing the flag. The flag holds after each
  step of the fetch, and the refreshed events are in the state before the flag
  is cleared.
\<close>

theorem reminder_refresh_before_idle:
  assumes accepted: "\<not> ((trim (question st) = [] \<and> imageFile st = None) \<or> loading st)"
    and resp: "ragFetch e = Resolved status (Some data)" "ok status" "data \<noteq> JNull"
    and intent: "intentOf data = JStr (str ''reminder'')"
  shows "\<exists>pre. handleSubmitTrace st e = pre @ fetchEventsTrace (calFetch e) @ submitFinally st
      \<and> SetLoading True \<in> set pre
      \<and> SetLoading False \<notin> set (pre @ fetchEventsTrace (calFetch e))
      \<and> hd (fetchEventsTrace (calFetch e)) = GetCalendarEvents
      \<and> last (fetchEventsTrace (calFetch e))
          = SetCalendarEvents (calendarEvents (fetchEvents st (calFetch e)))
      \<and> hd (submitFinally st) = SetLoading False
      \<and> (\<forall>k \<le> length (fetchEventsTrace (calFetch e)).
            loading (run st (pre @ take k (fetchEventsTrace (calFetch e)))))
      \<and> calendarEvents (run st (pre @ fetchEventsTrace (calFetch e)))
          = calendarEvents (fetchEvents st (calFetch e))
      \<and> \<not> loading (handleSubmit st e)
      \<and> calendarEvents (handleSubmit st e) = calendarEvents (fetchEvents st (calFetch e))"
proof -
  define trimmed where "trimmed = trim (question st)"
  define formData where "formData =
     [(''query'', FText trimmed), (''k'', FText (str ''5''))]
     @ (case imageFile st of Some f \<Rightarrow> [(''file'', FFile f)] | None \<Rightarrow> [])"
  define reply where "reply = agentMessage (nowReply e) (answerTextOf data) True JNull"
  define pre where "pre =
     [PreventDefault, AppendMessage (userMessage st e trimmed), SetQuestion [],
      SetLoading True, SetImagePreviewUrl None, PostAsk formData, AppendMessage reply]"
  let ?fetch = "fetchEventsTrace (calFetch e)"
  have res: "askResult e = Inr (reply, True)"
    using resp intent
    by (simp add: askResult_ok agentReply_defined citeFirstPage_reminder reply_def)
  have trace: "handleSubmitTrace st e = pre @ ?fetch @ submitFinally st"
    using accepted res
    by (simp add: handleSubmitTrace_def submitTry_def pre_def trimmed_def formData_def Let_def)
  have on: "SetLoading True \<in> set pre"
    by (simp add: pre_def)
  have no_off: "SetLoading False \<notin> set (pre @ ?fetch)"
    by (simp add: pre_def fetchEventsTrace_no_SetLoading)
  have first: "hd ?fetch = GetCalendarEvents"
    by (simp add: fetchEventsTrace_def)
  have final: "last ?fetch = SetCalendarEvents (calendarEvents (fetchEvents st (calFetch e)))"
    by (simp add: fetchEvents_def fetchEventsTrace_def split: sum.split)
  have off: "hd (submitFinally st) = SetLoading False"
    by (simp add: submitFinally_def)
  have loading_pre: "loading (run st pre)"
    by (simp add: pre_def)
  have pending: "loading (run st (pre @ take k ?fetch))" for k
  proof -
    have "\<forall>b. SetLoading b \<notin> set (take k ?fetch)"
      using fetchEventsTrace_no_SetLoading by (metis in_set_takeD)
    then show ?thesis
      using loading_pre by (simp add: run_append loading_run_unchanged)
  qed
  have events_in: "calendarEvents (run st (pre @ ?fetch))
          = calendarEvents (fetchEvents st (calFetch e))"
    by (simp add: run_append calendarEvents_run_fetch)
  have idle: "\<not> loading (handleSubmit st e)"
    unfolding handleSubmit_def trace using run_finally by (metis append_assoc)
  have "calendarEvents (run (run st (pre @ ?fetch)) (submitFinally st))
          = calendarEvents (run st (pre @ ?fetch))"
    by (rule calendarEvents_run_unchanged) (simp add: submitFinally_def)
  then have events_kept: "calendarEvents (handleSubmit st e)
          = calendarEvents (fetchEvents st (calFetch e))"
    using events_in by (simp add: handleSubmit_def trace run_append)
  show ?thesis
    using trace on no_off first final off pending events_in idle events_kept by blast
qed

theorem reminder_refresh_before_idle_witness:
  "intentOf remindPayload = JStr (str ''reminder'')
   \<and> loading (run typedHi (take 8 (handleSubmitTrace typedHi reminded)))
   \<and> loading (run typedHi (take 9 (handleSubmitTrace typedHi reminded)))
   \<and> calendarEvents (run typedHi (take 9 (handleSubmitTrace typedHi reminded)))
       = JArr [JStr (str ''e1'')]
   \<and> \<not> loading (handleSubmit typedHi reminded)
   \<and> calendarEvents (handleSubmit typedHi reminded) = JArr [JStr (str ''e1'')]"
  using reminder_refresh_before_idle [of typedHi reminded 200 remindPayload]
  by (simp add: typedHi_def reminded_def remindPayload_def oneEvent_def trim_def
      isWhiteSpace_def reply_defs handleSubmit_def handleSubmitTrace_def submitTry_def
      submitFinally_def userMessage_def fetchEventsTrace_def fetchEventsTry_def Let_def)

subsection \<open>The calendar grid\<close>

lemma digits_small: "n < 10 \<Longrightarrow> digits n = [digit n]"
  by (simp add: digits.simps [of n])

lemma digits_large: "10 \<le> n \<Longrightarrow> digits n = digits (n div 10) @ [digit (n mod 10)]"
  by (simp add: digits.simps [of n])

lemma padStart2_twoDigits:
  assumes "0 \<le> k" "k \<le> 99"
  shows "padStart2 (numToString k) = twoDigits k"
proof (cases "k < 10")
  case True
  then show ?thesis
    using assms by (simp add: padStart2_def numToString_def twoDigits_def digits_small digit_def)
next
  case False
  then have "10 \<le> nat k" "nat k div 10 < 10"
    using assms by simp_all
  then show ?thesis
    using assms by (simp add: padStart2_def numToString_def twoDigits_def digits_large digits_small)
qed

lemma numToString_fourDigits:
  assumes "1000 \<le> y" "y \<le> 9999"
  shows "numToString y = fourDigits y"
proof -
  define n where "n = nat y"
  have n: "1000 \<le> n" "n \<le> 9999"
    using assms by (simp_all add: n_def)
  then have "10 \<le> n" "10 \<le> n div 10" "10 \<le> n div 10 div 10" "n div 10 div 10 div 10 < 10"
    by simp_all
  then have "digits n = [digit (n div 10 div 10 div 10), digit (n div 10 div 10 mod 10),
                          digit (n div 10 mod 10), digit (n mod 10)]"
    by (simp add: digits_large digits_small)
  moreover have "n div 10 div 10 div 10 = n div 1000" "n div 10 div 10 = n div 100"
    by (simp_all add: div_mult2_eq [symmetric])
  ultimately show ?thesis
    using assms by (simp add: numToString_def fourDigits_def n_def)
qed

lemma daysInMonthOf_bounds: "28 \<le> daysInMonthOf y m" "daysInMonthOf y m \<le> 31"
  by (simp_all add: daysInMonthOf_def)

lemma normDay_in_month:
  "1 \<le> d \<Longrightarrow> d \<le> daysInMonthOf y m \<Longrightarrow> normDay y m d = \<lparr>getFullYear = y, getMonth = m, getDate = d\<rparr>"
  by (simp add: normDay.simps [of y m d])

lemma normDay_day_zero:
  assumes "0 \<le> m" "m \<le> 11"
  shows "normDay (y + (m + 1) div 12) ((m + 1) mod 12) 0
         = \<lparr>getFullYear = y, getMonth = m, getDate = daysInMonthOf y m\<rparr>"
proof (cases "m = 11")
  case True
  have "normDay (y + 1) 0 0 = normDay y 11 (daysInMonthOf y 11)"
    by (simp add: normDay.simps [of "y + 1" 0 0])
  then show ?thesis
    using True daysInMonthOf_bounds [of y 11] by (simp add: normDay_in_month)
next
  case False
  then have m: "(m + 1) div 12 = 0" "(m + 1) mod 12 = m + 1"
    using assms by simp_all
  have "normDay y (m + 1) 0 = normDay y m (daysInMonthOf y m)"
    using assms by (simp add: normDay.simps [of y "m + 1" 0])
  then show ?thesis
    using m daysInMonthOf_bounds [of y m] by (simp add: normDay_in_month)
qed

lemma newDate_modern:
  assumes "\<not> (0 \<le> y \<and> y \<le> 99)" "0 \<le> m" "m \<le> 11"
  shows "newDate y m d = normDay y m d"
  using assms by (auto simp: newDate_def)

lemma todayOf_valid:
  assumes "validDate now"
  shows "validDate (todayOf now) \<and> \<not> (0 \<le> getFullYear (todayOf now) \<and> getFullYear (todayOf now) \<le> 99)"
proof -
  define y where "y = (if 0 \<le> getFullYear now \<and> getFullYear now \<le> 99 then 1900 + getFullYear now else getFullYear now)"
  define m where "m = getMonth now"
  define d where "d = getDate now"
  have m: "0 \<le> m" "m \<le> 11" and d: "1 \<le> d" "d \<le> daysInMonthOf (getFullYear now) m"
    using assms by (simp_all add: validDate_def m_def d_def)
  have y: "\<not> (0 \<le> y \<and> y \<le> 99)"
    by (auto simp: y_def)
  have today: "todayOf now = normDay y m d"
    using m by (simp add: todayOf_def newDate_def y_def m_def d_def)
  show ?thesis
  proof (cases "d \<le> daysInMonthOf y m")
    case True
    then show ?thesis
      using today d m y by (simp add: normDay_in_month validDate_def)
  next
    case False
    then have feb: "m = 1" "d = 29" "daysInMonthOf y m = 28"
      using d by (auto simp: daysInMonthOf_def split: if_splits)
    have "normDay y 1 29 = normDay y 2 1"
      using feb by (simp add: normDay.simps [of y 1 29])
    then have "todayOf now = \<lparr>getFullYear = y, getMonth = 2, getDate = 1\<rparr>"
      using today feb by (simp add: normDay_in_month daysInMonthOf_def)
    then show ?thesis
      using y by (simp add: validDate_def daysInMonthOf_def)
  qed
qed

lemma padWeeks_length: "length (padWeeks cs) mod 7 = 0"
proof (induction cs rule: padWeeks.induct)
  case (1 cs)
  then show ?case
    by (cases "length cs mod 7 = 0") (simp_all add: padWeeks.simps [of cs])
qed

lemma padWeeks_eq: "padWeeks cs = cs @ replicate ((7 - length cs mod 7) mod 7) None"
proof (induction cs rule: padWeeks.induct)
  case (1 cs)
  show ?case
  proof (cases "length cs mod 7 = 0")
    case True
    then show ?thesis by (simp add: padWeeks.simps [of cs])
  next
    case False
    define r where "r = length cs mod 7"
    have r: "r < 7" "r \<noteq> 0"
      using False by (simp_all add: r_def)
    have next_r: "Suc (length cs) mod 7 = (if Suc r = 7 then 0 else Suc r)"
      unfolding r_def by (rule mod_Suc)
    have "(7 - r) mod 7 = Suc ((7 - (if Suc r = 7 then 0 else Suc r)) mod 7)"
      using r by auto
    then have count: "(7 - length cs mod 7) mod 7 = Suc ((7 - Suc (length cs) mod 7) mod 7)"
      using next_r by (simp add: r_def)
    have "padWeeks cs = padWeeks (cs @ [None])"
      using False by (simp add: padWeeks.simps [of cs])
    also have "\<dots> = (cs @ [None]) @ replicate ((7 - Suc (length cs) mod 7) mod 7) None"
      using "1.IH" [OF False] by simp
    also have "\<dots> = cs @ replicate ((7 - length cs mod 7) mod 7) None"
      by (simp add: count)
    finally show ?thesis .
  qed
qed


lemma getDay_range: "0 \<le> getDay dt \<and> getDay dt \<le> 6"
  by (simp add: getDay_def)

lemma formatISODate_digits:
  assumes "0 \<le> m" "m \<le> 11" "1 \<le> d" "d \<le> 31"
  shows "formatISODate \<lparr>getFullYear = y, getMonth = m, getDate = d\<rparr>
         = numToString y @ 0x2D # twoDigits (m + 1) @ 0x2D # twoDigits d"
  using assms by (simp add: formatISODate_def padStart2_twoDigits)

lemma calendar_cells:
  assumes valid: "validDate today"
    and modern: "\<not> (0 \<le> getFullYear today \<and> getFullYear today \<le> 99)"
    and y: "y = getFullYear today" and m: "m = getMonth today"
  shows "cells (calendar today)
         = padWeeks
             (replicate (nat (getDay \<lparr>getFullYear = y, getMonth = m, getDate = 1\<rparr>)) None
              @ map (\<lambda>day. Some \<lparr>key = numToString y @ 0x2D # twoDigits (m + 1)
                                         @ 0x2D # twoDigits day,
                                   label = day,
                                   isToday = (day = getDate today)\<rparr>)
                    [1..daysInMonthOf y m])"
proof -
  have mm: "0 \<le> m" "m \<le> 11"
    using valid by (simp_all add: validDate_def m)
  have new: "newDate y m d = normDay y m d" for d
    using modern mm by (simp add: newDate_modern y)
  have first: "newDate y m 1 = \<lparr>getFullYear = y, getMonth = m, getDate = 1\<rparr>"
    using daysInMonthOf_bounds [of y m] by (simp add: new normDay_in_month)
  have "newDate y (m + 1) 0 = normDay (y + (m + 1) div 12) ((m + 1) mod 12) 0"
    using modern by (auto simp: newDate_def y)
  then have last_day: "getDate (newDate y (m + 1) 0) = daysInMonthOf y m"
    using mm by (simp add: normDay_day_zero)
  have day: "formatISODate (newDate y m d)
             = numToString y @ 0x2D # twoDigits (m + 1) @ 0x2D # twoDigits d"
    if "d \<in> set [1..daysInMonthOf y m]" for d
  proof -
    have d: "1 \<le> d" "d \<le> daysInMonthOf y m" "d \<le> 31"
      using that daysInMonthOf_bounds [of y m] by simp_all
    show ?thesis
      using d mm by (simp add: new normDay_in_month formatISODate_digits)
  qed
  have days: "map (\<lambda>d. Some \<lparr>key = formatISODate (newDate y m d), label = d,
                                isToday = (d = getDate today)\<rparr>)
                  [1..daysInMonthOf y m]
              = map (\<lambda>d. Some \<lparr>key = numToString y @ 0x2D # twoDigits (m + 1)
                                          @ 0x2D # twoDigits d,
                                    label = d,
                                    isToday = (d = getDate today)\<rparr>)
                    [1..daysInMonthOf y m]"
    by (rule map_cong) (simp_all add: day)
  show ?thesis
    by (simp add: calendar_def Let_def y [symmetric] m [symmetric] first last_day days)
qed

text \<open>
  The weekday of the model advances by one from each day to the next, across
  months and years, and 1 January 1970 is a Thursday.
\<close>

lemma div_step:
  fixes a k :: int
  assumes "0 < k"
  shows "(a + 1) div k = a div k + (if (a + 1) mod k = 0 then 1 else 0)"
proof -
  define q where "q = a div k"
  define r where "r = a mod k"
  have a: "a = k * q + r" and r: "0 \<le> r" "r < k"
    using assms by (simp_all add: q_def r_def)
  show ?thesis
  proof (cases "r + 1 = k")
    case True
    then have "a + 1 = k * (q + 1)"
      using a by (simp add: algebra_simps)
    then show ?thesis
      using assms by (simp add: q_def)
  next
    case False
    then have r1: "0 \<le> r + 1" "r + 1 < k"
      using r by simp_all
    have split: "a + 1 = k * q + (r + 1)"
      using a by simp
    have "(k * q + (r + 1)) div k = q + (r + 1) div k"
      using assms by (intro div_mult_self4) simp
    moreover have "(k * q + (r + 1)) mod k = (r + 1) mod k"
      by (rule mod_mult_self4)
    ultimately have "(a + 1) div k = q" "(a + 1) mod k = r + 1"
      unfolding split using r1 by simp_all
    then show ?thesis
      using r by (simp add: q_def)
  qed
qed

lemma mod_coarser:
  fixes y :: int
  assumes "y mod a = 0" "b dvd a"
  shows "y mod b = 0"
proof -
  have "a dvd y"
    using assms(1) by (simp add: mod_eq_0_iff_dvd)
  with assms(2) have "b dvd y"
    by (rule dvd_trans)
  then show ?thesis
    by (simp add: mod_eq_0_iff_dvd)
qed

lemma div_shift_step:
  fixes y c k :: int
  assumes "0 < k" "(1 - c) mod k = 0"
  shows "(y + 1 - c) div k = (y - c) div k + (if y mod k = 0 then 1 else 0)"
proof -
  have "(y - c + 1) mod k = (y + (1 - c)) mod k"
    by (simp add: algebra_simps)
  also have "\<dots> = (y + (1 - c) mod k) mod k"
    by (simp only: mod_add_right_eq)
  also have "\<dots> = y mod k"
    by (simp add: assms(2))
  finally have m: "(y - c + 1) mod k = y mod k" .
  have "y + 1 - c = y - c + 1"
    by simp
  then show ?thesis
    using div_step [OF assms(1), of "y - c"] by (simp only: m)
qed

lemma dayFromYear_next:
  "dayFromYear (y + 1) = dayFromYear y + (if isLeapYear y then 366 else 365)"
proof -
  have a: "(y + 1 - 1969) div 4 = (y - 1969) div 4 + (if y mod 4 = 0 then 1 else 0)"
    by (rule div_shift_step) simp_all
  have b: "(y + 1 - 1901) div 100 = (y - 1901) div 100 + (if y mod 100 = 0 then 1 else 0)"
    by (rule div_shift_step) simp_all
  have c: "(y + 1 - 1601) div 400 = (y - 1601) div 400 + (if y mod 400 = 0 then 1 else 0)"
    by (rule div_shift_step) simp_all
  have d: "y mod 400 = 0 \<Longrightarrow> y mod 100 = 0" "y mod 100 = 0 \<Longrightarrow> y mod 4 = 0"
    by (erule mod_coarser, simp)+
  have "dayFromYear (y + 1)
        = dayFromYear y + 365 + (if y mod 4 = 0 then 1 else 0)
          - (if y mod 100 = 0 then 1 else 0) + (if y mod 400 = 0 then 1 else 0)"
    unfolding dayFromYear_def a b c by (simp only: algebra_simps)
  then show ?thesis
    using d by (auto simp only: isLeapYear_def split: if_splits)
qed


lemma days_before_december:
  "sum_list (map (daysInMonthOf y) [0..10]) = (if isLeapYear y then 335 else 334)"
  by (simp add: upto_rec1 [of 0 10] upto_rec1 [of 1 10] daysInMonthOf_def)

lemma dayNumber_next_day:
  assumes "0 \<le> m" "m \<le> 11" "1 \<le> d" "d \<le> daysInMonthOf y m"
  shows "dayNumber (normDay y m (d + 1))
         = dayNumber \<lparr>getFullYear = y, getMonth = m, getDate = d\<rparr> + 1"
proof (cases "d + 1 \<le> daysInMonthOf y m")
  case True
  then show ?thesis
    using assms by (simp add: normDay_in_month dayNumber_def)
next
  case False
  then have last_day: "d = daysInMonthOf y m"
    using assms by simp
  show ?thesis
  proof (cases "m = 11")
    case True
    have d: "d = 31"
      using last_day True by (simp add: daysInMonthOf_def)
    have "normDay y 11 32 = normDay (y + 1) 0 1"
      by (simp add: normDay.simps [of y 11 32] daysInMonthOf_def)
    also have "\<dots> = \<lparr>getFullYear = y + 1, getMonth = 0, getDate = 1\<rparr>"
      using daysInMonthOf_bounds [of "y + 1" 0] by (simp add: normDay_in_month)
    finally have "normDay y m (d + 1) = \<lparr>getFullYear = y + 1, getMonth = 0, getDate = 1\<rparr>"
      using True d by simp
    then show ?thesis
      using True d by (simp add: dayNumber_def dayFromYear_next days_before_december)
  next
    case False
    have "normDay y m (daysInMonthOf y m + 1) = normDay y (m + 1) 1"
      using False daysInMonthOf_bounds [of y m]
      by (simp add: normDay.simps [of y m "daysInMonthOf y m + 1"])
    also have "\<dots> = \<lparr>getFullYear = y, getMonth = m + 1, getDate = 1\<rparr>"
      using daysInMonthOf_bounds [of y "m + 1"] by (simp add: normDay_in_month)
    finally have rollover: "normDay y m (daysInMonthOf y m + 1)
        = \<lparr>getFullYear = y, getMonth = m + 1, getDate = 1\<rparr>" .
    have "[0..m] = [0..m - 1] @ [m]"
      using assms(1) by (rule upto_rec2)
    then show ?thesis
      unfolding last_day by (simp add: rollover dayNumber_def)
  qed
qed

lemma getDay_next_day:
  assumes "0 \<le> m" "m \<le> 11" "1 \<le> d" "d \<le> daysInMonthOf y m"
  shows "getDay (normDay y m (d + 1))
         = (getDay \<lparr>getFullYear = y, getMonth = m, getDate = d\<rparr> + 1) mod 7"
  unfolding getDay_def dayNumber_next_day [OF assms]
  by (simp add: mod_simps algebra_simps)

lemma getDay_epoch: "getDay \<lparr>getFullYear = 1970, getMonth = 0, getDate = 1\<rparr> = 4"
  by code_simp

text \<open>
  C6. For every date \<open>now\<close> the widget starts at, with \<open>today\<close> the reference
  date built from it: the number of cells is a multiple of 7; the grid is
  \<open>w\<close> empty cells, \<open>w\<close> being the weekday (0 for Sunday) of day 1 of
  \<open>today\<close>'s month, then one cell for each day from 1 to the number of days of
  that month, in order, then the fewest empty cells that complete the last week.
  The cell of a day carries the key year-MM-DD (the year in four digits for the
  years 1000 to 9999, month and day in two digits), the day as label, and
  \<open>isToday\<close> exactly for the day of \<open>today\<close>, which is one of the days of the
  grid.
\<close>

theorem calendar_grid:
  assumes now: "validDate now"
    and today: "today = todayOf now"
    and y: "y = getFullYear today" and m: "m = getMonth today"
    and w: "w = getDay \<lparr>getFullYear = y, getMonth = m, getDate = 1\<rparr>"
    and n: "n = daysInMonthOf y m"
  shows "length (cells (calendar today)) mod 7 = 0
     \<and> cells (calendar today)
         = replicate (nat w) None
           @ map (\<lambda>day. Some \<lparr>key = numToString y @ 0x2D # twoDigits (m + 1)
                                       @ 0x2D # twoDigits day,
                                 label = day,
                                 isToday = (day = getDate today)\<rparr>)
                 [1..n]
           @ replicate ((7 - (nat w + nat n) mod 7) mod 7) None
     \<and> 0 \<le> w \<and> w \<le> 6
     \<and> 0 \<le> m \<and> m \<le> 11
     \<and> 1 \<le> getDate today \<and> getDate today \<le> n
     \<and> (1000 \<le> y \<and> y \<le> 9999 \<longrightarrow> numToString y = fourDigits y)"
proof -
  have valid: "validDate today"
    and modern: "\<not> (0 \<le> getFullYear today \<and> getFullYear today \<le> 99)"
    using todayOf_valid [OF now] by (simp_all add: today)
  have grid: "cells (calendar today)
         = (replicate (nat w) None
           @ map (\<lambda>day. Some \<lparr>key = numToString y @ 0x2D # twoDigits (m + 1)
                                       @ 0x2D # twoDigits day,
                                 label = day,
                                 isToday = (day = getDate today)\<rparr>)
                 [1..n])
           @ replicate ((7 - (nat w + nat n) mod 7) mod 7) None"
    unfolding calendar_cells [OF valid modern y m] padWeeks_eq
    by (simp add: w n)
  have len: "length (cells (calendar today)) mod 7 = 0"
    unfolding calendar_cells [OF valid modern y m] by (rule padWeeks_length)
  have range: "0 \<le> w \<and> w \<le> 6"
    unfolding w by (rule getDay_range)
  have date: "0 \<le> m \<and> m \<le> 11 \<and> 1 \<le> getDate today \<and> getDate today \<le> n"
    using valid by (simp add: validDate_def y m n)
  show ?thesis
    using grid len range date numToString_fourDigits by simp
qed

theorem calendar_grid_witness:
  "validDate nov2
   \<and> todayOf nov2 = nov2
   \<and> getDay \<lparr>getFullYear = 2026, getMonth = 10, getDate = 1\<rparr> = 0
   \<and> daysInMonthOf 2026 10 = 30
   \<and> length (cells (calendar nov2)) = 35
   \<and> take 2 (cells (calendar nov2))
       = [Some \<lparr>key = str ''2026-11-01'', label = 1, isToday = False\<rparr>,
          Some \<lparr>key = str ''2026-11-02'', label = 2, isToday = True\<rparr>]
   \<and> drop 30 (cells (calendar nov2)) = replicate 5 None"
proof -
  have valid: "validDate nov2"
    by (simp add: nov2_def validDate_def daysInMonthOf_def)
  have today: "todayOf nov2 = nov2"
    by (simp add: nov2_def todayOf_def newDate_def normDay_in_month daysInMonthOf_def)
  have w: "getDay \<lparr>getFullYear = 2026, getMonth = 10, getDate = 1\<rparr> = 0"
    by code_simp
  have n: "daysInMonthOf 2026 10 = 30"
    by (simp add: daysInMonthOf_def)
  have y: "numToString 2026 = str ''2026''"
    using numToString_fourDigits [of 2026] by (simp add: fourDigits_def digit_def str_def)
  have grid: "cells (calendar nov2)
      = map (\<lambda>day. Some \<lparr>key = str ''2026'' @ 0x2D # twoDigits 11 @ 0x2D # twoDigits day,
                          label = day, isToday = (day = 2)\<rparr>) [1..30]
        @ replicate 5 None"
    using calendar_grid [OF valid today [symmetric] refl refl refl refl]
    by (simp add: today w n y nov2_def)
  have days: "[1..30::int] = 1 # 2 # [3..30]" "length [3..30::int] = 28"
    by (simp_all add: upto_rec1 [of 1 30])
  show ?thesis
    by (simp add: valid today w n grid days twoDigits_def digit_def str_def)
qed

end
